theory Spec2Isabelle
  imports Main "HOL-Library.Word"
begin

section \<open>Platform constants\<close>

text \<open>
  The error numbers come from the system's \<^verbatim>\<open>errno.h\<close> (the runtime uses eventfd and
  accept4, so the platform is Linux). C's \<^verbatim>\<open>int\<close> is modelled by \<^typ>\<open>int\<close>. The
  arithmetic of the code on it cannot overflow: it negates a status, and the statuses the
  scheduler stores are 0, 1, \<^verbatim>\<open>-ETIME\<close> and \<^verbatim>\<open>-EBADF\<close>; and it counts fibers, each of
  which occupies 64 KiB of the address space.
\<close>

definition EINTR :: int where "EINTR = 4"
definition EBADF :: int where "EBADF = 9"
definition EWOULDBLOCK :: int where "EWOULDBLOCK = 11"
definition ETIME :: int where "ETIME = 62"
definition ETIMEDOUT :: int where "ETIMEDOUT = 110"
definition ECONNREFUSED :: int where "ECONNREFUSED = 111"
definition EINPROGRESS :: int where "EINPROGRESS = 115"

text \<open>Addresses are 64-bit words; pointer arithmetic wraps.\<close>

type_synonym ptr = "64 word"

definition TARA_FIBER_SIZE :: ptr where "TARA_FIBER_SIZE = 65536"

text \<open>\<^verbatim>\<open>MAP_FAILED\<close> is \<^verbatim>\<open>(void *) -1\<close>; \<^verbatim>\<open>nullptr\<close> is address 0.\<close>

definition MAP_FAILED :: ptr where "MAP_FAILED = - 1"
definition nullptr :: ptr where "nullptr = 0"

section \<open>Data model\<close>

datatype IOEvent = Readability | Writability

text \<open>
  A \<^verbatim>\<open>jmp_buf\<close> is a local variable of the function that called \<^verbatim>\<open>setjmp\<close>. The model
  keeps of it the one thing the scheduler's control flow depends on: which \<^verbatim>\<open>setjmp\<close>
  site a \<^verbatim>\<open>longjmp\<close> to it returns into.
\<close>

datatype jmp_buf = InRun | InYieldCurrentFiber | InSleepCurrentFiber | InAwaitIOEvent

text \<open>
  A \<^verbatim>\<open>Coroutine\<close> is a callable that compares equal to \<^verbatim>\<open>nullptr\<close> when empty:
  \<open>None\<close> is the empty callable, \<open>Some b\<close> the callable with body \<open>b\<close>.
\<close>

type_synonym Coroutine = "nat option"

text \<open>
  The Fiber record. The two intrusive linkage nodes \<^verbatim>\<open>queueItem\<close> and \<^verbatim>\<open>timerItem\<close>
  carry no data: a fiber's membership of a queue is the queue's content below.
\<close>

record Fiber =
  f_coroutine :: Coroutine
  f_stack :: ptr
  f_context :: "jmp_buf option"
  f_status :: int
  f_fd :: int

text \<open>
  Modelled from the spec: the constructor \<^verbatim>\<open>Fiber(coroutine, stack)\<close> of Fiber.hxx is
  missing. The spec's data model: the context is null before the fiber has ever run,
  status 0 means no context saved (fresh or dead), fd is -1 when the fiber awaits none.
\<close>

definition Fiber_new :: "Coroutine \<Rightarrow> ptr \<Rightarrow> Fiber" where
  "Fiber_new coroutine fiberStack =
     \<lparr>f_coroutine = coroutine, f_stack = fiberStack, f_context = None, f_status = 0, f_fd = - 1\<rparr>"

subsection \<open>TimerQueue\<close>

text \<open>
  Modelled from the spec: the class TimerQueue (the scheduler's member \<^verbatim>\<open>timer_\<close>) is
  missing. An item is the \<^verbatim>\<open>timerItem\<close> node of a fiber, so it is named by the fiber's
  address; its deadline is \<open>None\<close> when the duration was negative (never expires). The list
  is in insertion order. Time is a parameter: the clock value read by the call.
\<close>

type_synonym TimerQueue = "(ptr \<times> int option) list"

definition addItem :: "int \<Rightarrow> ptr \<Rightarrow> int \<Rightarrow> TimerQueue \<Rightarrow> TimerQueue" where
  "addItem now item duration tq =
     tq @ [(item, if duration < 0 then None else Some (now + duration))]"

definition removeItem :: "ptr \<Rightarrow> TimerQueue \<Rightarrow> TimerQueue" where
  "removeItem item tq = filter (\<lambda>e. fst e \<noteq> item) tq"

definition isDue :: "int \<Rightarrow> ptr \<times> int option \<Rightarrow> bool" where
  "isDue now e = (case snd e of None \<Rightarrow> False | Some d \<Rightarrow> d \<le> now)"

definition deadlineKey :: "ptr \<times> int option \<Rightarrow> int" where
  "deadlineKey e = (case snd e of None \<Rightarrow> 0 | Some d \<Rightarrow> d)"

text \<open>
  \<open>removeDueItems\<close>: up to \<open>cap\<close> items whose deadline is at most \<open>now\<close>, by ascending
  deadline, ties by insertion order (\<open>sort_key\<close> is stable), removed from the queue.
\<close>

definition removeDueItems :: "int \<Rightarrow> nat \<Rightarrow> TimerQueue \<Rightarrow> ptr list \<times> TimerQueue" where
  "removeDueItems now cap tq =
     (let due = take cap (sort_key deadlineKey (filter (isDue now) tq))
      in (map fst due, filter (\<lambda>e. e \<notin> set due) tq))"

definition calculateTimeout :: "int \<Rightarrow> TimerQueue \<Rightarrow> int" where
  "calculateTimeout now tq =
     (case sort_key deadlineKey (filter (\<lambda>e. snd e \<noteq> None) tq) of
        [] \<Rightarrow> - 1
      | e # _ \<Rightarrow> max 0 (deadlineKey e - now))"

subsection \<open>IOPoll\<close>

text \<open>
  Modelled from the spec: the class IOPoll (the scheduler's member \<^verbatim>\<open>ioPoll_\<close>) is
  missing. It holds the watched descriptors and, for each descriptor and event, the fibers
  awaiting it; a waiter is the \<^verbatim>\<open>queueItem\<close> node of a fiber, named by the fiber's address.
\<close>

record IOPoll =
  watched :: "int list"
  waiters :: "(ptr \<times> int \<times> IOEvent) list"

definition watch :: "int \<Rightarrow> IOPoll \<Rightarrow> IOPoll" where
  "watch fdv p = (if fdv \<in> set (watched p) then p else p\<lparr>watched := watched p @ [fdv]\<rparr>)"

definition isWatched :: "int \<Rightarrow> IOPoll \<Rightarrow> bool" where
  "isWatched fdv p = (fdv \<in> set (watched p))"

definition addEventAwaiter :: "ptr \<Rightarrow> int \<Rightarrow> IOEvent \<Rightarrow> IOPoll \<Rightarrow> IOPoll" where
  "addEventAwaiter node fdv ev p = p\<lparr>waiters := waiters p @ [(node, fdv, ev)]\<rparr>"

definition removeEventAwaiter :: "ptr \<Rightarrow> int \<Rightarrow> IOPoll \<Rightarrow> IOPoll" where
  "removeEventAwaiter node fdv p =
     p\<lparr>waiters := filter (\<lambda>w. \<not> (fst w = node \<and> fst (snd w) = fdv)) (waiters p)\<rparr>"

text \<open>\<open>removeEventAwaiters\<close> deregisters the descriptor and drains every fiber waiting on it.\<close>

definition removeEventAwaiters :: "int \<Rightarrow> IOPoll \<Rightarrow> IOPoll \<times> ptr list" where
  "removeEventAwaiters fdv p =
     (p\<lparr>watched := removeAll fdv (watched p),
        waiters := filter (\<lambda>w. fst (snd w) \<noteq> fdv) (waiters p)\<rparr>,
      map fst (filter (\<lambda>w. fst (snd w) = fdv) (waiters p)))"

text \<open>What one call of the kernel's readiness wait did.\<close>

datatype KernelWait = Interrupted | TimedOut | Ready "(int \<times> IOEvent) list"

text \<open>
  \<open>waitForEvents\<close>: every waiter of a ready (fd, event) is spliced into the output list and
  leaves the wait set. The result is true if a fiber was produced or the timeout elapsed.
  The timeout is handed to the kernel, and what the kernel then did is \<open>k\<close>.
\<close>

definition waitForEvents :: "int \<Rightarrow> KernelWait \<Rightarrow> IOPoll \<Rightarrow> IOPoll \<times> ptr list \<times> bool" where
  "waitForEvents timeout k p =
     (case k of
        Interrupted \<Rightarrow> (p, [], False)
      | TimedOut \<Rightarrow> (p, [], True)
      | Ready evs \<Rightarrow>
          (let woken = filter (\<lambda>w. snd w \<in> set evs) (waiters p)
           in (p\<lparr>waiters := filter (\<lambda>w. snd w \<notin> set evs) (waiters p)\<rparr>,
               map fst woken, woken \<noteq> [])))"

subsection \<open>Scheduler\<close>

text \<open>
  The scheduler's members, and the memory holding the Fiber records (\<open>fibers\<close>, by address).
  \<^verbatim>\<open>fiberCount_\<close> is declared in Scheduler.hxx, which is missing; it is an \<^typ>\<open>int\<close> here.
  A queue is the list of the fibers linked into it, head first.
\<close>

record Scheduler =
  fiberCount :: int
  sched_context :: "jmp_buf option"
  sched_status :: int
  runningFiber :: "ptr option"
  readyFiberQueue :: "ptr list"
  deadFiberQueue :: "ptr list"
  timer :: TimerQueue
  ioPoll :: IOPoll
  fibers :: "ptr \<rightharpoonup> Fiber"

text \<open>The constructor \<^verbatim>\<open>Scheduler::Scheduler()\<close>.\<close>

definition Scheduler_new :: Scheduler where
  "Scheduler_new =
     \<lparr>fiberCount = 0, sched_context = None, sched_status = 0, runningFiber = None,
      readyFiberQueue = [], deadFiberQueue = [], timer = [],
      ioPoll = \<lparr>watched = [], waiters = []\<rparr>, fibers = Map.empty\<rparr>"

text \<open>Assignment to fields of the Fiber at an address.\<close>

definition upd :: "ptr \<Rightarrow> (Fiber \<Rightarrow> Fiber) \<Rightarrow> Scheduler \<Rightarrow> Scheduler" where
  "upd p g s = s\<lparr>fibers := (fibers s)(p := map_option g (fibers s p))\<rparr>"

text \<open>
  Modelled from the spec: the macro \<^verbatim>\<open>TARA_FATALITY_LOG\<close> of Log.hxx is missing. The spec's
  failure policy: the process is terminated after a log line.
\<close>

datatype error = Fatality

text \<open>
  How a scheduler method ends: it returns to its caller, or control leaves it for good
  through \<^verbatim>\<open>RunFiber\<close> (bootstrap the fiber on its stack), through a \<^verbatim>\<open>longjmp\<close> into a
  fiber's saved context or into the context of \<^verbatim>\<open>run\<close>, or a failed \<^verbatim>\<open>assert\<close> aborts.
  \<open>Undefined\<close> is a read through a pointer at which no Fiber lives, \<open>FatalExit\<close> the end
  of the process after \<^verbatim>\<open>TARA_FATALITY_LOG\<close>, \<open>NeverReturns\<close> a loop that does not end.
\<close>

datatype transfer =
    Returned
  | RunFiber ptr ptr
  | LongjmpFiber ptr jmp_buf int
  | LongjmpScheduler jmp_buf int
  | AssertionFailed
  | Undefined
  | FatalExit
  | NeverReturns

text \<open>\<^verbatim>\<open>setjmp\<close> returns the value given to \<^verbatim>\<open>longjmp\<close>, and 1 when that value is 0.\<close>

definition setjmp_returns :: "int \<Rightarrow> int" where
  "setjmp_returns val = (if val = 0 then 1 else val)"

section \<open>Scheduler methods\<close>

text \<open>
  \<^verbatim>\<open>CreateFiber\<close>: \<open>region\<close> is what \<^verbatim>\<open>mmap\<close> returned. The size of the Fiber record is a
  parameter (Fiber.hxx is missing). The result is the fiber's address and the record
  constructed there. The two overloads (copying and moving the coroutine) are one function.
\<close>

definition CreateFiber :: "ptr \<Rightarrow> ptr \<Rightarrow> Coroutine \<Rightarrow> error + (ptr \<times> Fiber)" where
  "CreateFiber sizeof_Fiber region coroutine =
     (if region = nullptr then Inl Fatality
      else (let fiber = region + TARA_FIBER_SIZE - sizeof_Fiber;
                fiberStack = fiber
            in Inr (fiber, Fiber_new coroutine fiberStack)))"

text \<open>\<^verbatim>\<open>DestroyFiber\<close>: the destructor runs and the region is unmapped.\<close>

definition DestroyFiber :: "ptr \<Rightarrow> Scheduler \<Rightarrow> Scheduler" where
  "DestroyFiber fiber s = s\<lparr>fibers := (fibers s)(fiber := None)\<rparr>"

definition callCoroutine :: "ptr \<Rightarrow> ptr \<Rightarrow> Coroutine \<Rightarrow> Scheduler \<Rightarrow> error + Scheduler" where
  "callCoroutine sizeof_Fiber region coroutine s =
     (case deadFiberQueue s of
        fiber # rest \<Rightarrow>
          (let s1 = s\<lparr>deadFiberQueue := rest\<rparr>;
               s2 = upd fiber (\<lambda>fb. fb\<lparr>f_coroutine := coroutine\<rparr>) s1
           in Inr (s2\<lparr>readyFiberQueue := readyFiberQueue s2 @ [fiber]\<rparr>))
      | [] \<Rightarrow>
          (case CreateFiber sizeof_Fiber region coroutine of
             Inl e \<Rightarrow> Inl e
           | Inr (fiber, fb) \<Rightarrow>
               (let s1 = s\<lparr>fibers := (fibers s)(fiber \<mapsto> fb)\<rparr>;
                    s2 = s1\<lparr>fiberCount := fiberCount s1 + 1\<rparr>
                in Inr (s2\<lparr>readyFiberQueue := readyFiberQueue s2 @ [fiber]\<rparr>))))"

definition execute :: "Scheduler \<Rightarrow> Scheduler \<times> transfer" where
  "execute s =
     (let s' = s\<lparr>runningFiber := None\<rparr>
      in case sched_context s' of
           None \<Rightarrow> (s', AssertionFailed)
         | Some c \<Rightarrow>
             if sched_status s' = 0 then (s', AssertionFailed)
             else (s', LongjmpScheduler c (sched_status s')))"

definition executeFiber :: "ptr \<Rightarrow> Scheduler \<Rightarrow> Scheduler \<times> transfer" where
  "executeFiber fiber s =
     (if fiber = nullptr then (s, AssertionFailed)
      else (let s' = s\<lparr>runningFiber := Some fiber\<rparr>
            in case fibers s' fiber of
                 None \<Rightarrow> (s', Undefined)
               | Some fb \<Rightarrow>
                   (case f_context fb of
                      None \<Rightarrow> (s', RunFiber fiber (f_stack fb))
                    | Some c \<Rightarrow>
                        if f_status fb = 0 then (s', AssertionFailed)
                        else (s', LongjmpFiber fiber c (f_status fb)))))"

text \<open>
  The common tail of the suspending methods: with an empty ready queue \<^verbatim>\<open>execute()\<close>,
  otherwise unlink the head of the ready queue and \<^verbatim>\<open>executeFiber\<close> it.
\<close>

definition executeNext :: "Scheduler \<Rightarrow> Scheduler \<times> transfer" where
  "executeNext s =
     (case readyFiberQueue s of
        [] \<Rightarrow> execute s
      | fiber # rest \<Rightarrow> executeFiber fiber (s\<lparr>readyFiberQueue := rest\<rparr>))"

text \<open>
  The methods below are the first return of their \<^verbatim>\<open>setjmp\<close> (value 0). What happens when a
  \<^verbatim>\<open>longjmp\<close> comes back into them is \<open>resume\<close> further down.
\<close>

definition yieldCurrentFiber :: "Scheduler \<Rightarrow> Scheduler \<times> transfer" where
  "yieldCurrentFiber s =
     (case runningFiber s of
        None \<Rightarrow> (s, AssertionFailed)
      | Some r \<Rightarrow>
          if readyFiberQueue s = [] then (s, Returned)
          else (let s1 = upd r (\<lambda>fb. fb\<lparr>f_context := Some InYieldCurrentFiber\<rparr>) s;
                    s2 = upd r (\<lambda>fb. fb\<lparr>f_status := 1\<rparr>) s1;
                    s3 = s2\<lparr>readyFiberQueue := readyFiberQueue s2 @ [r]\<rparr>
                in executeFiber (hd (readyFiberQueue s3))
                     (s3\<lparr>readyFiberQueue := tl (readyFiberQueue s3)\<rparr>)))"

definition sleepCurrentFiber :: "int \<Rightarrow> int \<Rightarrow> Scheduler \<Rightarrow> Scheduler \<times> transfer" where
  "sleepCurrentFiber now duration s =
     (case runningFiber s of
        None \<Rightarrow> (s, AssertionFailed)
      | Some r \<Rightarrow>
          (let s1 = upd r (\<lambda>fb. fb\<lparr>f_context := Some InSleepCurrentFiber\<rparr>) s;
               s2 = upd r (\<lambda>fb. fb\<lparr>f_status := 1\<rparr>) s1;
               s3 = s2\<lparr>timer := addItem now r duration (timer s2)\<rparr>
           in executeNext s3))"

definition killCurrentFiber :: "Scheduler \<Rightarrow> Scheduler \<times> transfer" where
  "killCurrentFiber s =
     (case runningFiber s of
        None \<Rightarrow> (s, AssertionFailed)
      | Some r \<Rightarrow>
          (let s1 = upd r (\<lambda>fb. fb\<lparr>f_context := None\<rparr>) s;
               s2 = upd r (\<lambda>fb. fb\<lparr>f_status := 0\<rparr>) s1;
               s3 = s2\<lparr>deadFiberQueue := deadFiberQueue s2 @ [r]\<rparr>
           in executeNext s3))"

definition awaitIOEvent :: "int \<Rightarrow> int \<Rightarrow> IOEvent \<Rightarrow> int \<Rightarrow> Scheduler \<Rightarrow> Scheduler \<times> transfer" where
  "awaitIOEvent now fdv ioEvent timeout s =
     (case runningFiber s of
        None \<Rightarrow> (s, AssertionFailed)
      | Some r \<Rightarrow>
          (let s1 = upd r (\<lambda>fb. fb\<lparr>f_context := Some InAwaitIOEvent\<rparr>) s;
               s2 = upd r (\<lambda>fb. fb\<lparr>f_status := 1\<rparr>) s1;
               s3 = upd r (\<lambda>fb. fb\<lparr>f_fd := fdv\<rparr>) s2;
               s4 = s3\<lparr>ioPoll := addEventAwaiter r fdv ioEvent (ioPoll s3)\<rparr>;
               s5 = s4\<lparr>timer := addItem now r timeout (timer s4)\<rparr>
           in executeNext s5))"

text \<open>
  \<^verbatim>\<open>awaitIOEvent\<close> after a \<^verbatim>\<open>longjmp\<close> into its context with value \<open>val\<close>: the return value
  and the thread's \<^verbatim>\<open>errno\<close>.
\<close>

definition awaitIOEvent_resumed :: "int \<Rightarrow> int \<Rightarrow> int \<times> int" where
  "awaitIOEvent_resumed val errno =
     (let status = setjmp_returns val
      in if status < 0 then (- 1, - status) else (0, errno))"

text \<open>
  \<^verbatim>\<open>unwatchIO\<close>. The loop over the drained fibers is \<open>unwatchIO_each\<close>; \<^verbatim>\<open>QUEUE_ADD\<close> splices
  the drained list to the tail of the ready queue.
\<close>

definition unwatchIO_each :: "Scheduler \<Rightarrow> ptr \<Rightarrow> Scheduler" where
  "unwatchIO_each s fiber =
     upd fiber (\<lambda>fb. fb\<lparr>f_status := - EBADF\<rparr>) (s\<lparr>timer := removeItem fiber (timer s)\<rparr>)"

definition unwatchIO :: "int \<Rightarrow> Scheduler \<Rightarrow> Scheduler" where
  "unwatchIO fdv s =
     (case removeEventAwaiters fdv (ioPoll s) of
        (p, fiberQueue) \<Rightarrow>
          (let s1 = foldl unwatchIO_each (s\<lparr>ioPoll := p\<rparr>) fiberQueue
           in if fiberQueue \<noteq> [] then s1\<lparr>readyFiberQueue := readyFiberQueue s1 @ fiberQueue\<rparr>
              else s1))"

text \<open>
  Modelled from the spec: \<^verbatim>\<open>watchIO\<close> and \<^verbatim>\<open>ioIsWatched\<close> are defined in Scheduler.hxx,
  which is missing; the spec has them forward to IOPoll.
\<close>

definition watchIO :: "int \<Rightarrow> Scheduler \<Rightarrow> Scheduler" where
  "watchIO fdv s = s\<lparr>ioPoll := watch fdv (ioPoll s)\<rparr>"

definition ioIsWatched :: "int \<Rightarrow> Scheduler \<Rightarrow> bool" where
  "ioIsWatched fdv s = isWatched fdv (ioPoll s)"

subsection \<open>The phases of one iteration of \<^verbatim>\<open>run\<close>\<close>

text \<open>Dispatch: the first return of \<^verbatim>\<open>setjmp\<close> in \<^verbatim>\<open>run\<close>.\<close>

definition run_dispatch :: "Scheduler \<Rightarrow> Scheduler \<times> transfer" where
  "run_dispatch s =
     (case readyFiberQueue s of
        [] \<Rightarrow> (s, Returned)
      | fiber # rest \<Rightarrow>
          (let s1 = s\<lparr>sched_context := Some InRun\<rparr>;
               s2 = s1\<lparr>sched_status := 1\<rparr>
           in executeFiber fiber (s2\<lparr>readyFiberQueue := rest\<rparr>)))"

text \<open>Reap: the result's second component says that \<^verbatim>\<open>run\<close> leaves its loop.\<close>

definition run_reap_each :: "Scheduler \<Rightarrow> ptr \<Rightarrow> Scheduler" where
  "run_reap_each s fiber = (let s1 = DestroyFiber fiber s in s1\<lparr>fiberCount := fiberCount s1 - 1\<rparr>)"

definition run_reap :: "Scheduler \<Rightarrow> Scheduler \<times> bool" where
  "run_reap s =
     (if deadFiberQueue s \<noteq> [] then
        (let s1 = foldl run_reap_each s (deadFiberQueue s);
             s2 = s1\<lparr>deadFiberQueue := []\<rparr>
         in (s2, fiberCount s2 = 0))
      else (s, False))"

text \<open>
  Poll: \<open>script\<close> holds, for the successive calls of \<^verbatim>\<open>waitForEvents\<close>, the clock value
  \<^verbatim>\<open>calculateTimeout\<close> reads and what the kernel does; the loop ends at the first call
  that returns true, and does not return when no call does.
  Modelled from the spec (section 4.3): the splice of \<^verbatim>\<open>waitForEvents\<close> sets a woken
  fiber's status to 1 and its fd to -1 (\<open>run_poll_wake\<close>).
\<close>

fun waitLoop ::
  "TimerQueue \<Rightarrow> (int \<times> KernelWait) list \<Rightarrow> IOPoll \<Rightarrow> ptr list \<Rightarrow> (IOPoll \<times> ptr list) option" where
  "waitLoop tq [] p fiberQueue = None"
| "waitLoop tq ((now, k) # script) p fiberQueue =
     (case waitForEvents (calculateTimeout now tq) k p of
        (p', woken, ok) \<Rightarrow>
          if ok then Some (p', fiberQueue @ woken) else waitLoop tq script p' (fiberQueue @ woken))"

definition run_poll_wake :: "Scheduler \<Rightarrow> ptr \<Rightarrow> Scheduler" where
  "run_poll_wake s fiber = upd fiber (\<lambda>fb. fb\<lparr>f_status := 1, f_fd := - 1\<rparr>) s"

definition run_poll_each :: "Scheduler \<Rightarrow> ptr \<Rightarrow> Scheduler" where
  "run_poll_each s fiber = s\<lparr>timer := removeItem fiber (timer s)\<rparr>"

definition run_poll :: "(int \<times> KernelWait) list \<Rightarrow> Scheduler \<Rightarrow> Scheduler option" where
  "run_poll script s =
     (case waitLoop (timer s) script (ioPoll s) [] of
        None \<Rightarrow> None
      | Some (p, fiberQueue) \<Rightarrow>
          (let s1 = foldl run_poll_wake (s\<lparr>ioPoll := p\<rparr>) fiberQueue;
               s2 = foldl run_poll_each s1 fiberQueue
           in Some (if fiberQueue \<noteq> [] then s2\<lparr>readyFiberQueue := readyFiberQueue s2 @ fiberQueue\<rparr>
                    else s2)))"

text \<open>
  Timer: the buffer holds 1024 items. For a fiber read through a pointer at which no Fiber
  lives the model skips the test of its fd.
\<close>

definition run_timer_each :: "Scheduler \<Rightarrow> ptr \<Rightarrow> Scheduler" where
  "run_timer_each s fiber =
     (let s3 =
        (case fibers s fiber of
           None \<Rightarrow> s
         | Some fb \<Rightarrow>
             if f_fd fb \<ge> 0 then
               (let s1 = s\<lparr>ioPoll := removeEventAwaiter fiber (f_fd fb) (ioPoll s)\<rparr>;
                    s2 = upd fiber (\<lambda>fb. fb\<lparr>f_fd := - 1\<rparr>) s1
                in upd fiber (\<lambda>fb. fb\<lparr>f_status := - ETIME\<rparr>) s2)
             else s)
      in s3\<lparr>readyFiberQueue := readyFiberQueue s3 @ [fiber]\<rparr>)"

definition run_timer :: "int \<Rightarrow> Scheduler \<Rightarrow> Scheduler" where
  "run_timer now s =
     (case removeDueItems now 1024 (timer s) of
        (buffer, tq) \<Rightarrow> foldl run_timer_each (s\<lparr>timer := tq\<rparr>) buffer)"

section \<open>The public functions of the runtime\<close>

text \<open>
  \<open>TheScheduler\<close> is the thread-local pointer (\<open>None\<close> when null) and \<open>errno\<close> the thread's
  error number on entry. The two overloads of \<^verbatim>\<open>Call\<close> are one function.
\<close>

definition Call :: "Scheduler option \<Rightarrow> ptr \<Rightarrow> ptr \<Rightarrow> Coroutine \<Rightarrow> error + Scheduler" where
  "Call TheScheduler sizeof_Fiber region coroutine =
     (case TheScheduler of
        None \<Rightarrow> Inl Fatality
      | Some s \<Rightarrow>
          if coroutine \<noteq> None then callCoroutine sizeof_Fiber region coroutine s
          else Inr s)"

text \<open>The calls a function made, in order: system calls and scheduler methods.\<close>

datatype call =
    Sys_close int
  | Sys_connect int
  | Sys_getsockopt_SO_ERROR int
  | Sched_unwatchIO int
  | Sched_awaitIOEvent int IOEvent int

text \<open>
  The loop of \<^verbatim>\<open>Close\<close>. \<open>script\<close> holds, for the successive calls of \<^verbatim>\<open>close(fd)\<close>, the
  result and the error number a failing call stores in \<^verbatim>\<open>errno\<close>. The loop gives the last
  result, \<^verbatim>\<open>errno\<close> and the number of calls made; \<open>None\<close> when the script ends before the
  loop does.
\<close>

fun close_loop :: "(int \<times> int) list \<Rightarrow> int \<Rightarrow> (int \<times> int \<times> nat) option" where
  "close_loop [] errno = None"
| "close_loop ((result, e) # script) errno =
     (if result \<ge> 0 then Some (result, errno, 1)
      else if e = EINTR then
        (case close_loop script e of
           None \<Rightarrow> None
         | Some (result', errno', n) \<Rightarrow> Some (result', errno', Suc n))
      else Some (result, e, 1))"

text \<open>\<^verbatim>\<open>Close\<close> gives its return value, \<^verbatim>\<open>errno\<close>, the scheduler and the calls it made.\<close>

definition Close ::
  "Scheduler option \<Rightarrow> (int \<times> int) list \<Rightarrow> int \<Rightarrow> int \<Rightarrow>
     (error + (int \<times> int \<times> Scheduler \<times> call list)) option" where
  "Close TheScheduler script errno fdv =
     (case TheScheduler of
        None \<Rightarrow> Some (Inl Fatality)
      | Some s \<Rightarrow>
          if \<not> ioIsWatched fdv s then Some (Inr (- 1, EBADF, s, []))
          else
            (case close_loop script errno of
               None \<Rightarrow> None
             | Some (result, errno', n) \<Rightarrow>
                 if result < 0 then
                   Some (Inr (- 1, errno', unwatchIO fdv s,
                              replicate n (Sys_close fdv) @ [Sched_unwatchIO fdv]))
                 else
                   Some (Inr (0, errno', unwatchIO fdv s,
                              replicate n (Sys_close fdv) @ [Sched_unwatchIO fdv]))))"

text \<open>
  \<^verbatim>\<open>Connect\<close> either finishes with a return value and \<^verbatim>\<open>errno\<close>, or its fiber is suspended
  inside \<^verbatim>\<open>awaitIOEvent\<close>, which left the scheduler in the given state with the given
  transfer of control. \<open>connect_result\<close> is the result of \<^verbatim>\<open>connect\<close> and the error number
  it stores on failure.
\<close>

datatype progress =
    Done int int "call list"
  | Suspended Scheduler transfer "call list"

definition Connect ::
  "Scheduler option \<Rightarrow> int \<Rightarrow> int \<times> int \<Rightarrow> int \<Rightarrow> int \<Rightarrow> int \<Rightarrow> error + progress" where
  "Connect TheScheduler now connect_result errno fdv timeout =
     (case TheScheduler of
        None \<Rightarrow> Inl Fatality
      | Some s \<Rightarrow>
          if \<not> ioIsWatched fdv s then Inr (Done (- 1) EBADF [])
          else
            (case connect_result of
               (r, e) \<Rightarrow>
                 if r < 0 then
                   (if e \<noteq> EINTR \<and> e \<noteq> EINPROGRESS then Inr (Done (- 1) e [Sys_connect fdv])
                    else
                      (case awaitIOEvent now fdv Writability timeout s of
                         (s', t) \<Rightarrow>
                           Inr (Suspended s' t
                                  [Sys_connect fdv, Sched_awaitIOEvent fdv Writability timeout])))
                 else Inr (Done 0 errno [Sys_connect fdv])))"

text \<open>
  The rest of \<^verbatim>\<open>Connect\<close>, from the \<^verbatim>\<open>longjmp\<close> with value \<open>val\<close> into its pending
  \<^verbatim>\<open>awaitIOEvent\<close>. \<open>getsockopt_result\<close> is the result of \<^verbatim>\<open>getsockopt\<close>, the error number it
  stores on failure and the option value it stores on success. The result is the return
  value, \<^verbatim>\<open>errno\<close> and the calls made after the resumption.
\<close>

definition Connect_resumed :: "int \<Rightarrow> int \<Rightarrow> int \<times> int \<times> int \<Rightarrow> int \<Rightarrow> int \<times> int \<times> call list" where
  "Connect_resumed val errno getsockopt_result fdv =
     (case awaitIOEvent_resumed val errno of
        (a, errno1) \<Rightarrow>
          if a < 0 then (- 1, errno1, [])
          else
            (case getsockopt_result of
               (g, e, optval) \<Rightarrow>
                 if g < 0 then (- 1, e, [Sys_getsockopt_SO_ERROR fdv])
                 else if optval \<noteq> 0 then (- 1, optval, [Sys_getsockopt_SO_ERROR fdv])
                 else (0, errno1, [Sys_getsockopt_SO_ERROR fdv])))"

section \<open>Operations on a scheduler and the fibers they dispatch\<close>

text \<open>
  Everything that changes a scheduler: its methods with their arguments and what the
  environment supplies to them (the clock, \<^verbatim>\<open>mmap\<close>'s result, the kernel's readiness
  reports), and the four phases of an iteration of \<^verbatim>\<open>run\<close>. \<^verbatim>\<open>exitCurrentFiber\<close> changes
  nothing itself: its exception unwinds to \<^verbatim>\<open>FiberStart\<close>, which calls
  \<^verbatim>\<open>killCurrentFiber\<close>, as it does when the coroutine returns.
\<close>

datatype operation =
    Op_callCoroutine ptr ptr Coroutine
  | Op_yieldCurrentFiber
  | Op_sleepCurrentFiber int int
  | Op_killCurrentFiber
  | Op_awaitIOEvent int int IOEvent int
  | Op_watchIO int
  | Op_unwatchIO int
  | Op_run_dispatch
  | Op_run_reap
  | Op_run_poll "(int \<times> KernelWait) list"
  | Op_run_timer int

fun perform :: "operation \<Rightarrow> Scheduler \<Rightarrow> Scheduler \<times> transfer" where
  "perform (Op_callCoroutine sizeof_Fiber region coroutine) s =
     (case callCoroutine sizeof_Fiber region coroutine s of
        Inl e \<Rightarrow> (s, FatalExit)
      | Inr s' \<Rightarrow> (s', Returned))"
| "perform Op_yieldCurrentFiber s = yieldCurrentFiber s"
| "perform (Op_sleepCurrentFiber now duration) s = sleepCurrentFiber now duration s"
| "perform Op_killCurrentFiber s = killCurrentFiber s"
| "perform (Op_awaitIOEvent now fdv ioEvent timeout) s = awaitIOEvent now fdv ioEvent timeout s"
| "perform (Op_watchIO fdv) s = (watchIO fdv s, Returned)"
| "perform (Op_unwatchIO fdv) s = (unwatchIO fdv s, Returned)"
| "perform Op_run_dispatch s = run_dispatch s"
| "perform Op_run_reap s = (fst (run_reap s), Returned)"
| "perform (Op_run_poll script) s =
     (case run_poll script s of
        None \<Rightarrow> (s, NeverReturns)
      | Some s' \<Rightarrow> (s', Returned))"
| "perform (Op_run_timer now) s = (run_timer now s, Returned)"

text \<open>
  What the callers and the system guarantee. \<^verbatim>\<open>mmap\<close>, when it is called (no dead fiber
  to recycle) and does not fail, returns a region that holds no live Fiber, and the Fiber
  placed in it is not at address 0. \<^verbatim>\<open>awaitIOEvent\<close> is called on a descriptor on which a
  system call has just failed with \<^verbatim>\<open>EWOULDBLOCK\<close>, \<^verbatim>\<open>EINPROGRESS\<close> or \<^verbatim>\<open>EINTR\<close>; a negative
  descriptor fails with \<^verbatim>\<open>EBADF\<close> instead, so the descriptor is not negative.
\<close>

fun admissible :: "operation \<Rightarrow> Scheduler \<Rightarrow> bool" where
  "admissible (Op_callCoroutine sizeof_Fiber region coroutine) s =
     (deadFiberQueue s \<noteq> [] \<or>
      region = nullptr \<or>
      (region \<noteq> MAP_FAILED \<and>
       region + TARA_FIBER_SIZE - sizeof_Fiber \<noteq> nullptr \<and>
       fibers s (region + TARA_FIBER_SIZE - sizeof_Fiber) = None))"
| "admissible (Op_awaitIOEvent now fdv ioEvent timeout) s = (0 \<le> fdv)"
| "admissible _ s = True"

text \<open>The fiber a transfer of control enters, and the transfers that end the process.\<close>

fun dispatched :: "transfer \<Rightarrow> ptr list" where
  "dispatched (RunFiber fiber fiberStack) = [fiber]"
| "dispatched (LongjmpFiber fiber c val) = [fiber]"
| "dispatched _ = []"

fun aborted :: "transfer \<Rightarrow> bool" where
  "aborted AssertionFailed = True"
| "aborted Undefined = True"
| "aborted FatalExit = True"
| "aborted NeverReturns = True"
| "aborted _ = False"

text \<open>The fibers entered, in order, while a sequence of operations is performed.\<close>

fun dispatches :: "operation list \<Rightarrow> Scheduler \<Rightarrow> ptr list" where
  "dispatches [] s = []"
| "dispatches (x # xs) s =
     (case perform x s of
        (s', t) \<Rightarrow> if aborted t then [] else dispatched t @ dispatches xs s')"

section \<open>The scheduler's invariant\<close>

text \<open>
  \<open>suspended\<close>: the fibers linked into the timer queue or an IOPoll wait set.
  \<open>queued\<close>: the fibers in the ready queue, the dead queue or the running slot.
\<close>

definition suspended :: "Scheduler \<Rightarrow> ptr set" where
  "suspended s = fst ` set (timer s) \<union> fst ` set (waiters (ioPoll s))"

definition queued :: "Scheduler \<Rightarrow> ptr set" where
  "queued s = set (readyFiberQueue s) \<union> set (deadFiberQueue s) \<union> set_option (runningFiber s)"

text \<open>
  A fiber is linked at most once into the ready queue, the dead queue and the running slot,
  and is not suspended at the same time; it has at most one timer item and one wait-set
  entry; a waiter's fd field is the descriptor it waits on, which is not negative; every
  linked pointer holds a Fiber and is not null; a suspended fiber has a saved context; and
  a fiber's status is 0 exactly when it has no saved context.
\<close>

definition sched_inv :: "Scheduler \<Rightarrow> bool" where
  "sched_inv s \<longleftrightarrow>
     distinct (readyFiberQueue s @ deadFiberQueue s) \<and>
     set_option (runningFiber s) \<inter> (set (readyFiberQueue s) \<union> set (deadFiberQueue s)) = {} \<and>
     suspended s \<inter> queued s = {} \<and>
     distinct (map fst (timer s)) \<and>
     distinct (map fst (waiters (ioPoll s))) \<and>
     (\<forall>w \<in> set (waiters (ioPoll s)).
        0 \<le> fst (snd w) \<and> (\<exists>fb. fibers s (fst w) = Some fb \<and> f_fd fb = fst (snd w))) \<and>
     suspended s \<union> queued s \<subseteq> dom (fibers s) \<and>
     nullptr \<notin> suspended s \<union> queued s \<and>
     (\<forall>p \<in> suspended s. \<forall>fb. fibers s p = Some fb \<longrightarrow> f_context fb \<noteq> None) \<and>
     (\<forall>p fb. fibers s p = Some fb \<longrightarrow> (f_status fb = 0 \<longleftrightarrow> f_context fb = None))"

section \<open>Notions used to state the properties\<close>

text \<open>What the timer phase does to the Fiber it wakes.\<close>

definition timedOut :: "Fiber \<Rightarrow> Fiber" where
  "timedOut fb = (if 0 \<le> f_fd fb then fb\<lparr>f_fd := - 1, f_status := - ETIME\<rparr> else fb)"

text \<open>The fibers waiting on a descriptor, in the order \<^verbatim>\<open>removeEventAwaiters\<close> drains them.\<close>

definition awaiters_of :: "int \<Rightarrow> Scheduler \<Rightarrow> ptr list" where
  "awaiters_of fdv s = map fst (filter (\<lambda>w. fst (snd w) = fdv) (waiters (ioPoll s)))"

section \<open>Example states\<close>

text \<open>A scheduler that watches descriptor 3 and owns no fiber.\<close>

definition ex_watching :: Scheduler where
  "ex_watching = Scheduler_new\<lparr>ioPoll := \<lparr>watched = [3], waiters = []\<rparr>\<rparr>"

text \<open>A scheduler inside \<^verbatim>\<open>run\<close> whose only fiber, at address 4096, is running.\<close>

definition ex_running :: Scheduler where
  "ex_running =
     Scheduler_new\<lparr>fiberCount := 1, sched_context := Some InRun, sched_status := 1,
                   runningFiber := Some 4096,
                   ioPoll := \<lparr>watched = [3], waiters = []\<rparr>,
                   fibers := [4096 \<mapsto> (Fiber_new (Some 1) 4096)]\<rparr>"

text \<open>
  The state after the fiber of \<open>ex_running\<close> has called, at time 0,
  \<^verbatim>\<open>awaitIOEvent(3, Readability, 100)\<close>.
\<close>

definition ex_awaiting :: Scheduler where
  "ex_awaiting = fst (awaitIOEvent 0 3 Readability 100 ex_running)"

text \<open>
  A scheduler inside \<^verbatim>\<open>run\<close> with two fresh fibers: the one at 4096 is running, the one
  at 8192 is ready.
\<close>

definition ex_two :: Scheduler where
  "ex_two =
     Scheduler_new\<lparr>fiberCount := 2, sched_context := Some InRun, sched_status := 1,
                   runningFiber := Some 4096, readyFiberQueue := [8192],
                   fibers := [4096 \<mapsto> Fiber_new (Some 1) 4096, 8192 \<mapsto> Fiber_new (Some 2) 8192]\<rparr>"

text \<open>
  How one operation may change the ready queue \<open>q\<close> into \<open>q'\<close> while dispatching \<open>d\<close>:
  it appends to the tail and dispatches nobody, or it unlinks the head, dispatches it and
  appends to the tail.
\<close>

definition fifo_step :: "ptr list \<Rightarrow> ptr list \<Rightarrow> ptr list \<Rightarrow> bool" where
  "fifo_step q q' d \<longleftrightarrow>
     (d = [] \<and> (\<exists>added. q' = q @ added)) \<or>
     (\<exists>h rest added. q = h # rest \<and> q' = rest @ added \<and> d = [h])"

section \<open>Properties\<close>

subsection \<open>Assignments through a fiber pointer\<close>

lemma upd_fields [simp]:
  "fiberCount (upd p g s) = fiberCount s"
  "sched_context (upd p g s) = sched_context s"
  "sched_status (upd p g s) = sched_status s"
  "runningFiber (upd p g s) = runningFiber s"
  "readyFiberQueue (upd p g s) = readyFiberQueue s"
  "deadFiberQueue (upd p g s) = deadFiberQueue s"
  "timer (upd p g s) = timer s"
  "ioPoll (upd p g s) = ioPoll s"
  "fibers (upd p g s) = (fibers s)(p := map_option g (fibers s p))"
  by (simp_all add: upd_def)

subsection \<open>Spawning\<close>

text \<open>
  Claim C4. \<^verbatim>\<open>callCoroutine\<close> returns to its caller with the running fiber unchanged, and
  has appended one fiber to the tail of the ready queue. With a non-empty dead queue that
  fiber is the head of the dead queue, unlinked from it, with the coroutine assigned and
  \<open>fiberCount\<close> unchanged. With an empty dead queue and a successful \<^verbatim>\<open>mmap\<close> it is a
  fresh Fiber constructed at the top of the new region, and \<open>fiberCount\<close> is one more.
  This holds for every coroutine, so for every non-null one.
\<close>

theorem callCoroutine_enqueues:
  "(deadFiberQueue s = fiber # rest \<longrightarrow>
      (\<exists>s'. callCoroutine sz region c s = Inr s' \<and>
         readyFiberQueue s' = readyFiberQueue s @ [fiber] \<and>
         deadFiberQueue s' = rest \<and>
         fiberCount s' = fiberCount s \<and>
         fibers s' = (fibers s)(fiber := map_option (\<lambda>fb. fb\<lparr>f_coroutine := c\<rparr>) (fibers s fiber)) \<and>
         runningFiber s' = runningFiber s \<and> timer s' = timer s \<and> ioPoll s' = ioPoll s)) \<and>
   (deadFiberQueue s = [] \<and> region \<noteq> nullptr \<and> region \<noteq> MAP_FAILED \<longrightarrow>
      (\<exists>s'. callCoroutine sz region c s = Inr s' \<and>
         readyFiberQueue s' = readyFiberQueue s @ [region + TARA_FIBER_SIZE - sz] \<and>
         deadFiberQueue s' = [] \<and>
         fiberCount s' = fiberCount s + 1 \<and>
         fibers s' = (fibers s)(region + TARA_FIBER_SIZE - sz \<mapsto>
                        Fiber_new c (region + TARA_FIBER_SIZE - sz)) \<and>
         runningFiber s' = runningFiber s \<and> timer s' = timer s \<and> ioPoll s' = ioPoll s))"
proof (intro conjI impI)
  assume dead: "deadFiberQueue s = fiber # rest"
  then show "\<exists>s'. callCoroutine sz region c s = Inr s' \<and>
         readyFiberQueue s' = readyFiberQueue s @ [fiber] \<and>
         deadFiberQueue s' = rest \<and>
         fiberCount s' = fiberCount s \<and>
         fibers s' = (fibers s)(fiber := map_option (\<lambda>fb. fb\<lparr>f_coroutine := c\<rparr>) (fibers s fiber)) \<and>
         runningFiber s' = runningFiber s \<and> timer s' = timer s \<and> ioPoll s' = ioPoll s"
    by (simp add: callCoroutine_def Let_def)
next
  assume "deadFiberQueue s = [] \<and> region \<noteq> nullptr \<and> region \<noteq> MAP_FAILED"
  then show "\<exists>s'. callCoroutine sz region c s = Inr s' \<and>
         readyFiberQueue s' = readyFiberQueue s @ [region + TARA_FIBER_SIZE - sz] \<and>
         deadFiberQueue s' = [] \<and>
         fiberCount s' = fiberCount s + 1 \<and>
         fibers s' = (fibers s)(region + TARA_FIBER_SIZE - sz \<mapsto>
                        Fiber_new c (region + TARA_FIBER_SIZE - sz)) \<and>
         runningFiber s' = runningFiber s \<and> timer s' = timer s \<and> ioPoll s' = ioPoll s"
    by (simp add: callCoroutine_def CreateFiber_def Let_def)
qed

theorem callCoroutine_enqueues_witness:
  "(\<exists>s'. callCoroutine 64 0 (Some 7)
            (Scheduler_new\<lparr>fiberCount := 1, deadFiberQueue := [4096],
                           fibers := [4096 \<mapsto> Fiber_new (Some 1) 4096]\<rparr>) = Inr s' \<and>
         readyFiberQueue s' = [4096] \<and> deadFiberQueue s' = [] \<and> fiberCount s' = 1 \<and>
         map_option f_coroutine (fibers s' 4096) = Some (Some 7)) \<and>
   (\<exists>s'. callCoroutine 64 131072 (Some 7) Scheduler_new = Inr s' \<and>
         readyFiberQueue s' = [196544] \<and> fiberCount s' = 1 \<and>
         fibers s' 196544 = Some (Fiber_new (Some 7) 196544))"
  using callCoroutine_enqueues [of "Scheduler_new\<lparr>fiberCount := 1, deadFiberQueue := [4096],
            fibers := [4096 \<mapsto> Fiber_new (Some 1) 4096]\<rparr>" 4096 "[]" 64 0 "Some 7"]
        callCoroutine_enqueues [of Scheduler_new 0 "[]" 64 131072 "Some 7"]
  by (auto simp add: Scheduler_new_def Fiber_new_def nullptr_def MAP_FAILED_def TARA_FIBER_SIZE_def)

text \<open>
  Claim C10. \<^verbatim>\<open>Call\<close> with a null coroutine returns the scheduler as it was: nothing is
  created, recycled or enqueued and \<open>fiberCount\<close> is the same. The check of the thread-local
  scheduler comes first: with no scheduler the call is fatal, null coroutine or not.
\<close>

theorem Call_null_coroutine:
  "Call (Some s) sz region None = Inr s \<and> Call None sz region None = Inl Fatality"
  by (simp add: Call_def)

text \<open>
  Claim C8. The claim asks that a failed \<^verbatim>\<open>mmap\<close> is fatal and that no Fiber is
  constructed on a failed mapping. \<^verbatim>\<open>CreateFiber\<close> compares the region with \<^verbatim>\<open>nullptr\<close>,
  while a failed \<^verbatim>\<open>mmap\<close> returns \<^verbatim>\<open>MAP_FAILED\<close>: on that result it is not fatal and
  constructs a Fiber at \<^verbatim>\<open>MAP_FAILED + TARA_FIBER_SIZE - sizeof(Fiber)\<close>, an address that
  has wrapped around (65471 for a Fiber of 64 bytes).
\<close>

theorem CreateFiber_on_failed_mapping:
  "CreateFiber 64 MAP_FAILED (Some 7) = Inr (65471, Fiber_new (Some 7) 65471)"
  by (simp add: CreateFiber_def MAP_FAILED_def nullptr_def Let_def TARA_FIBER_SIZE_def)

subsection \<open>The status convention of \<^verbatim>\<open>awaitIOEvent\<close>\<close>

text \<open>
  Claim C5. A fiber suspended in \<^verbatim>\<open>awaitIOEvent\<close> is resumed by \<^verbatim>\<open>executeFiber\<close> with a
  \<^verbatim>\<open>longjmp\<close> into the context saved there, carrying the fiber's status. With a positive
  status \<^verbatim>\<open>awaitIOEvent\<close> returns 0 and leaves \<^verbatim>\<open>errno\<close> alone; with a negative status it
  sets \<^verbatim>\<open>errno\<close> to the negated status and returns -1.
\<close>

theorem awaitIOEvent_status_convention:
  "fiber \<noteq> nullptr \<and> fibers s fiber = Some fb \<and> f_context fb = Some InAwaitIOEvent \<and> f_status fb \<noteq> 0 \<longrightarrow>
     snd (executeFiber fiber s) = LongjmpFiber fiber InAwaitIOEvent (f_status fb) \<and>
     (0 < f_status fb \<longrightarrow> awaitIOEvent_resumed (f_status fb) errno = (0, errno)) \<and>
     (f_status fb < 0 \<longrightarrow> awaitIOEvent_resumed (f_status fb) errno = (- 1, - f_status fb))"
proof (intro impI)
  assume a: "fiber \<noteq> nullptr \<and> fibers s fiber = Some fb \<and> f_context fb = Some InAwaitIOEvent \<and> f_status fb \<noteq> 0"
  then have jump: "snd (executeFiber fiber s) = LongjmpFiber fiber InAwaitIOEvent (f_status fb)"
    by (simp add: executeFiber_def Let_def)
  have pos: "0 < f_status fb \<longrightarrow> awaitIOEvent_resumed (f_status fb) errno = (0, errno)"
    by (simp add: awaitIOEvent_resumed_def setjmp_returns_def Let_def)
  have neg: "f_status fb < 0 \<longrightarrow> awaitIOEvent_resumed (f_status fb) errno = (- 1, - f_status fb)"
    by (simp add: awaitIOEvent_resumed_def setjmp_returns_def Let_def)
  from jump pos neg show "snd (executeFiber fiber s) = LongjmpFiber fiber InAwaitIOEvent (f_status fb) \<and>
     (0 < f_status fb \<longrightarrow> awaitIOEvent_resumed (f_status fb) errno = (0, errno)) \<and>
     (f_status fb < 0 \<longrightarrow> awaitIOEvent_resumed (f_status fb) errno = (- 1, - f_status fb))"
    by simp
qed

theorem awaitIOEvent_status_convention_witness:
  "awaitIOEvent_resumed 1 5 = (0, 5) \<and> awaitIOEvent_resumed (- 9) 5 = (- 1, 9) \<and>
   snd (executeFiber 4096 (Scheduler_new\<lparr>fibers := [4096 \<mapsto> (Fiber_new (Some 1) 4096)\<lparr>f_context := Some InAwaitIOEvent, f_status := 1\<rparr>]\<rparr>))
     = LongjmpFiber 4096 InAwaitIOEvent 1 \<and>
   snd (executeFiber 4096 (Scheduler_new\<lparr>fibers := [4096 \<mapsto> (Fiber_new (Some 1) 4096)\<lparr>f_context := Some InAwaitIOEvent, f_status := - 9\<rparr>]\<rparr>))
     = LongjmpFiber 4096 InAwaitIOEvent (- 9)"
  using awaitIOEvent_status_convention [of 4096 "Scheduler_new\<lparr>fibers := [4096 \<mapsto> (Fiber_new (Some 1) 4096)\<lparr>f_context := Some InAwaitIOEvent, f_status := 1\<rparr>]\<rparr>"
           "(Fiber_new (Some 1) 4096)\<lparr>f_context := Some InAwaitIOEvent, f_status := 1\<rparr>" 5]
        awaitIOEvent_status_convention [of 4096 "Scheduler_new\<lparr>fibers := [4096 \<mapsto> (Fiber_new (Some 1) 4096)\<lparr>f_context := Some InAwaitIOEvent, f_status := - 9\<rparr>]\<rparr>"
           "(Fiber_new (Some 1) 4096)\<lparr>f_context := Some InAwaitIOEvent, f_status := - 9\<rparr>" 5]
  by (simp add: Scheduler_new_def Fiber_new_def nullptr_def)

subsection \<open>Closing a descriptor\<close>

text \<open>
  The loop of \<^verbatim>\<open>Close\<close> on a script that fails with \<^verbatim>\<open>EINTR\<close> some number of times and
  then either succeeds or fails with another error: it makes one more call than there were
  interruptions and ends with the last result.
\<close>

lemma close_loop_retries:
  "\<forall>x \<in> set pre. fst x < 0 \<and> snd x = EINTR \<Longrightarrow> 0 \<le> result \<or> e \<noteq> EINTR \<Longrightarrow>
   close_loop (pre @ (result, e) # rest) errno =
     Some (result,
           if 0 \<le> result then (if pre = [] then errno else EINTR) else e,
           Suc (length pre))"
proof (induction pre arbitrary: errno)
  case Nil
  then show ?case by auto
next
  case (Cons x pre)
  obtain r0 e0 where x: "x = (r0, e0)" by (cases x)
  with Cons.prems have x_fails: "r0 < 0" "e0 = EINTR" by auto
  from Cons.prems have rest_fail: "\<forall>y \<in> set pre. fst y < 0 \<and> snd y = EINTR" by simp
  have ih: "close_loop (pre @ (result, e) # rest) EINTR =
     Some (result, if 0 \<le> result then (if pre = [] then EINTR else EINTR) else e, Suc (length pre))"
    using Cons.IH [OF rest_fail Cons.prems(2)] .
  show ?case using x x_fails ih by simp
qed

text \<open>
  Claim C6. On a descriptor that is not watched \<^verbatim>\<open>Close\<close> returns -1 with \<^verbatim>\<open>errno\<close> set to
  \<^verbatim>\<open>EBADF\<close>, has made no call (neither \<^verbatim>\<open>close\<close> nor \<^verbatim>\<open>unwatchIO\<close>) and leaves the
  scheduler as it was. On a watched descriptor it calls \<^verbatim>\<open>close\<close> again after each failure
  with \<^verbatim>\<open>EINTR\<close>; after the first call that succeeds or fails otherwise it calls
  \<^verbatim>\<open>unwatchIO\<close>, on both paths, and returns 0 on success and -1 on failure.
\<close>

theorem Close_behaviour:
  "(\<not> ioIsWatched fdv s \<longrightarrow>
      Close (Some s) script errno fdv = Some (Inr (- 1, EBADF, s, []))) \<and>
   (ioIsWatched fdv s \<and> (\<forall>x \<in> set pre. fst x < 0 \<and> snd x = EINTR) \<and> (0 \<le> result \<or> e \<noteq> EINTR) \<longrightarrow>
      Close (Some s) (pre @ (result, e) # rest) errno fdv =
        Some (Inr (if 0 \<le> result then 0 else - 1,
                   if 0 \<le> result then (if pre = [] then errno else EINTR) else e,
                   unwatchIO fdv s,
                   replicate (Suc (length pre)) (Sys_close fdv) @ [Sched_unwatchIO fdv])))"
proof (intro conjI impI)
  assume "\<not> ioIsWatched fdv s"
  then show "Close (Some s) script errno fdv = Some (Inr (- 1, EBADF, s, []))"
    by (simp add: Close_def)
next
  assume a: "ioIsWatched fdv s \<and> (\<forall>x \<in> set pre. fst x < 0 \<and> snd x = EINTR) \<and> (0 \<le> result \<or> e \<noteq> EINTR)"
  then have loop: "close_loop (pre @ (result, e) # rest) errno =
     Some (result, if 0 \<le> result then (if pre = [] then errno else EINTR) else e, Suc (length pre))"
    by (intro close_loop_retries) auto
  from a have w: "ioIsWatched fdv s" by simp
  show "Close (Some s) (pre @ (result, e) # rest) errno fdv =
        Some (Inr (if 0 \<le> result then 0 else - 1,
                   if 0 \<le> result then (if pre = [] then errno else EINTR) else e,
                   unwatchIO fdv s,
                   replicate (Suc (length pre)) (Sys_close fdv) @ [Sched_unwatchIO fdv]))"
    unfolding Close_def using w loop by (simp del: replicate_Suc close_loop.simps)
qed

theorem Close_behaviour_witness:
  "Close (Some ex_watching) [(0, 0)] 0 5 = Some (Inr (- 1, EBADF, ex_watching, [])) \<and>
   Close (Some ex_watching) [(- 1, EINTR), (0, 0)] 0 3 =
     Some (Inr (0, EINTR, unwatchIO 3 ex_watching, [Sys_close 3, Sys_close 3, Sched_unwatchIO 3])) \<and>
   Close (Some ex_watching) [(- 1, EINTR), (- 1, 5)] 0 3 =
     Some (Inr (- 1, 5, unwatchIO 3 ex_watching, [Sys_close 3, Sys_close 3, Sched_unwatchIO 3]))"
  using Close_behaviour [of 5 ex_watching "[(0, 0)]" 0 "[]" 0 0 "[]"]
        Close_behaviour [of 3 ex_watching "[]" 0 "[(- 1, EINTR)]" 0 0 "[]"]
        Close_behaviour [of 3 ex_watching "[]" 0 "[(- 1, EINTR)]" "- 1" 5 "[]"]
  by (simp add: ex_watching_def Scheduler_new_def ioIsWatched_def isWatched_def EINTR_def)

subsection \<open>Connecting\<close>

text \<open>
  Claim C7. On a watched descriptor \<^verbatim>\<open>Connect\<close> calls \<^verbatim>\<open>connect\<close> once. If that succeeds it
  returns 0. If it fails with \<^verbatim>\<open>EINPROGRESS\<close> the fiber enters \<^verbatim>\<open>awaitIOEvent\<close> for
  Writability on the descriptor, with the caller's timeout. When that wait is resumed with
  a positive status (the descriptor became writable) and \<^verbatim>\<open>getsockopt\<close> delivers
  \<^verbatim>\<open>SO_ERROR\<close>, a non-zero value becomes \<^verbatim>\<open>errno\<close> with return value -1, and zero gives
  return value 0. The claim's sequence is this path; what \<^verbatim>\<open>Connect\<close> does when the wait
  or \<^verbatim>\<open>getsockopt\<close> fails is in \<open>Connect_resumed_failures\<close>.
\<close>

theorem Connect_behaviour:
  "ioIsWatched fdv s \<longrightarrow>
     (0 \<le> r \<longrightarrow> Connect (Some s) now (r, e) errno fdv timeout = Inr (Done 0 errno [Sys_connect fdv])) \<and>
     (r < 0 \<and> e = EINPROGRESS \<longrightarrow>
        Connect (Some s) now (r, e) errno fdv timeout =
          Inr (Suspended (fst (awaitIOEvent now fdv Writability timeout s))
                         (snd (awaitIOEvent now fdv Writability timeout s))
                         [Sys_connect fdv, Sched_awaitIOEvent fdv Writability timeout])) \<and>
     (0 < val \<and> 0 \<le> g \<and> optval \<noteq> 0 \<longrightarrow>
        Connect_resumed val errno1 (g, ge, optval) fdv = (- 1, optval, [Sys_getsockopt_SO_ERROR fdv])) \<and>
     (0 < val \<and> 0 \<le> g \<longrightarrow>
        Connect_resumed val errno1 (g, ge, 0) fdv = (0, errno1, [Sys_getsockopt_SO_ERROR fdv]))"
  by (auto simp add: Connect_def Connect_resumed_def awaitIOEvent_resumed_def setjmp_returns_def
        EINPROGRESS_def EINTR_def split: prod.splits)

theorem Connect_behaviour_witness:
  "ioIsWatched 3 ex_running \<and>
   Connect (Some ex_running) 0 (0, 0) 0 3 100 = Inr (Done 0 0 [Sys_connect 3]) \<and>
   Connect (Some ex_running) 0 (- 1, EINPROGRESS) 0 3 100 =
     Inr (Suspended (fst (awaitIOEvent 0 3 Writability 100 ex_running))
                    (LongjmpScheduler InRun 1)
                    [Sys_connect 3, Sched_awaitIOEvent 3 Writability 100]) \<and>
   Connect_resumed 1 EINPROGRESS (0, 0, ECONNREFUSED) 3 = (- 1, ECONNREFUSED, [Sys_getsockopt_SO_ERROR 3]) \<and>
   Connect_resumed 1 EINPROGRESS (0, 0, 0) 3 = (0, EINPROGRESS, [Sys_getsockopt_SO_ERROR 3])"
  using Connect_behaviour [where fdv = 3 and s = ex_running and r = 0 and now = 0 and e = 0
          and errno = 0 and timeout = 100 and val = 1 and g = 0 and optval = ECONNREFUSED and ge = 0
          and ?errno1.0 = EINPROGRESS]
        Connect_behaviour [where fdv = 3 and s = ex_running and r = "- 1" and now = 0
          and e = EINPROGRESS and errno = 0 and timeout = 100 and val = 1 and g = 0
          and optval = ECONNREFUSED and ge = 0 and ?errno1.0 = EINPROGRESS]
  by (simp add: ex_running_def Scheduler_new_def ioIsWatched_def isWatched_def ECONNREFUSED_def
        awaitIOEvent_def executeNext_def execute_def upd_def Let_def)

text \<open>
  The other ways out of \<^verbatim>\<open>Connect\<close> after the wait: a wait resumed with a negative status
  (timeout, or the descriptor was unwatched) returns -1 without reading \<^verbatim>\<open>SO_ERROR\<close>, and a
  failing \<^verbatim>\<open>getsockopt\<close> returns -1 with the error it stored.
\<close>

lemma Connect_resumed_failures:
  "val < 0 \<Longrightarrow> Connect_resumed val errno1 gr fdv = (- 1, - val, [])"
  "0 < val \<Longrightarrow> g < 0 \<Longrightarrow>
     Connect_resumed val errno1 (g, ge, optval) fdv = (- 1, ge, [Sys_getsockopt_SO_ERROR fdv])"
  by (auto simp add: Connect_resumed_def awaitIOEvent_resumed_def setjmp_returns_def split: prod.splits)

subsection \<open>What the methods do to each member\<close>

lemma execute_fields [simp]:
  "fiberCount (fst (execute s)) = fiberCount s"
  "sched_context (fst (execute s)) = sched_context s"
  "sched_status (fst (execute s)) = sched_status s"
  "runningFiber (fst (execute s)) = None"
  "readyFiberQueue (fst (execute s)) = readyFiberQueue s"
  "deadFiberQueue (fst (execute s)) = deadFiberQueue s"
  "timer (fst (execute s)) = timer s"
  "ioPoll (fst (execute s)) = ioPoll s"
  "fibers (fst (execute s)) = fibers s"
  by (simp_all add: execute_def Let_def split: option.splits)

lemma executeFiber_fields [simp]:
  "fiberCount (fst (executeFiber f s)) = fiberCount s"
  "sched_context (fst (executeFiber f s)) = sched_context s"
  "sched_status (fst (executeFiber f s)) = sched_status s"
  "runningFiber (fst (executeFiber f s)) = (if f = nullptr then runningFiber s else Some f)"
  "readyFiberQueue (fst (executeFiber f s)) = readyFiberQueue s"
  "deadFiberQueue (fst (executeFiber f s)) = deadFiberQueue s"
  "timer (fst (executeFiber f s)) = timer s"
  "ioPoll (fst (executeFiber f s)) = ioPoll s"
  "fibers (fst (executeFiber f s)) = fibers s"
  by (simp_all add: executeFiber_def Let_def split: option.splits)

lemma executeNext_fields [simp]:
  "fiberCount (fst (executeNext s)) = fiberCount s"
  "sched_context (fst (executeNext s)) = sched_context s"
  "sched_status (fst (executeNext s)) = sched_status s"
  "runningFiber (fst (executeNext s)) =
     (case readyFiberQueue s of [] \<Rightarrow> None
      | f # rest \<Rightarrow> if f = nullptr then runningFiber s else Some f)"
  "readyFiberQueue (fst (executeNext s)) = tl (readyFiberQueue s)"
  "deadFiberQueue (fst (executeNext s)) = deadFiberQueue s"
  "timer (fst (executeNext s)) = timer s"
  "ioPoll (fst (executeNext s)) = ioPoll s"
  "fibers (fst (executeNext s)) = fibers s"
  by (simp_all add: executeNext_def split: list.splits)

subsection \<open>Unwatching a descriptor\<close>

lemma unwatchIO_each_fields [simp]:
  "fiberCount (unwatchIO_each s a) = fiberCount s"
  "sched_context (unwatchIO_each s a) = sched_context s"
  "sched_status (unwatchIO_each s a) = sched_status s"
  "runningFiber (unwatchIO_each s a) = runningFiber s"
  "readyFiberQueue (unwatchIO_each s a) = readyFiberQueue s"
  "deadFiberQueue (unwatchIO_each s a) = deadFiberQueue s"
  "timer (unwatchIO_each s a) = removeItem a (timer s)"
  "ioPoll (unwatchIO_each s a) = ioPoll s"
  "fibers (unwatchIO_each s a) = (fibers s)(a := map_option (\<lambda>fb. fb\<lparr>f_status := - EBADF\<rparr>) (fibers s a))"
  by (simp_all add: unwatchIO_each_def)

lemma foldl_unwatchIO_each_fields [simp]:
  "fiberCount (foldl unwatchIO_each s q) = fiberCount s"
  "sched_context (foldl unwatchIO_each s q) = sched_context s"
  "sched_status (foldl unwatchIO_each s q) = sched_status s"
  "runningFiber (foldl unwatchIO_each s q) = runningFiber s"
  "readyFiberQueue (foldl unwatchIO_each s q) = readyFiberQueue s"
  "deadFiberQueue (foldl unwatchIO_each s q) = deadFiberQueue s"
  "ioPoll (foldl unwatchIO_each s q) = ioPoll s"
  by (induction q arbitrary: s; simp)+

lemma foldl_unwatchIO_each_timer:
  "timer (foldl unwatchIO_each s q) = filter (\<lambda>e. fst e \<notin> set q) (timer s)"
  by (induction q arbitrary: s) (auto simp add: removeItem_def intro: filter_cong)

lemma foldl_unwatchIO_each_fibers:
  "fibers (foldl unwatchIO_each s q) p =
     (if p \<in> set q then map_option (\<lambda>fb. fb\<lparr>f_status := - EBADF\<rparr>) (fibers s p) else fibers s p)"
  by (induction q arbitrary: s) (auto simp add: option.map_comp comp_def)

lemma unwatchIO_alt:
  "unwatchIO fdv s =
     (let s1 = foldl unwatchIO_each (s\<lparr>ioPoll := fst (removeEventAwaiters fdv (ioPoll s))\<rparr>)
                 (awaiters_of fdv s)
      in s1\<lparr>readyFiberQueue := readyFiberQueue s1 @ awaiters_of fdv s\<rparr>)"
  by (simp add: unwatchIO_def awaiters_of_def removeEventAwaiters_def Let_def)

lemma unwatchIO_fields:
  "fiberCount (unwatchIO fdv s) = fiberCount s"
  "sched_context (unwatchIO fdv s) = sched_context s"
  "sched_status (unwatchIO fdv s) = sched_status s"
  "runningFiber (unwatchIO fdv s) = runningFiber s"
  "deadFiberQueue (unwatchIO fdv s) = deadFiberQueue s"
  "readyFiberQueue (unwatchIO fdv s) = readyFiberQueue s @ awaiters_of fdv s"
  "timer (unwatchIO fdv s) = filter (\<lambda>e. fst e \<notin> set (awaiters_of fdv s)) (timer s)"
  "ioPoll (unwatchIO fdv s) = fst (removeEventAwaiters fdv (ioPoll s))"
  "fibers (unwatchIO fdv s) p =
     (if p \<in> set (awaiters_of fdv s)
      then map_option (\<lambda>fb. fb\<lparr>f_status := - EBADF\<rparr>) (fibers s p) else fibers s p)"
  by (simp_all add: unwatchIO_alt Let_def foldl_unwatchIO_each_timer foldl_unwatchIO_each_fibers)

text \<open>
  Claim C2. \<^verbatim>\<open>unwatchIO(fd)\<close> leaves no waiter on the descriptor in the IOPoll wait sets
  and appends the drained fibers to the ready queue. Each drained fiber has no timer item
  afterwards and its status is \<^verbatim>\<open>-EBADF\<close>; when such a fiber, suspended in
  \<^verbatim>\<open>awaitIOEvent\<close>, is executed, the \<^verbatim>\<open>longjmp\<close> carries \<^verbatim>\<open>-EBADF\<close> and \<^verbatim>\<open>awaitIOEvent\<close>
  returns -1 with \<^verbatim>\<open>errno\<close> set to \<^verbatim>\<open>EBADF\<close>.
\<close>

theorem unwatchIO_cancels:
  "waiters (ioPoll (unwatchIO fdv s)) = filter (\<lambda>w. fst (snd w) \<noteq> fdv) (waiters (ioPoll s)) \<and>
   readyFiberQueue (unwatchIO fdv s) = readyFiberQueue s @ awaiters_of fdv s \<and>
   (\<forall>p \<in> set (awaiters_of fdv s).
      p \<notin> fst ` set (timer (unwatchIO fdv s)) \<and>
      fibers (unwatchIO fdv s) p = map_option (\<lambda>fb. fb\<lparr>f_status := - EBADF\<rparr>) (fibers s p) \<and>
      (\<forall>fb. p \<noteq> nullptr \<and> fibers s p = Some fb \<and> f_context fb = Some InAwaitIOEvent \<longrightarrow>
         snd (executeFiber p (unwatchIO fdv s)) = LongjmpFiber p InAwaitIOEvent (- EBADF) \<and>
         awaitIOEvent_resumed (- EBADF) errno = (- 1, EBADF)))"
proof (intro conjI ballI impI allI)
  show "waiters (ioPoll (unwatchIO fdv s)) = filter (\<lambda>w. fst (snd w) \<noteq> fdv) (waiters (ioPoll s))"
    by (simp add: unwatchIO_fields removeEventAwaiters_def)
  show "readyFiberQueue (unwatchIO fdv s) = readyFiberQueue s @ awaiters_of fdv s"
    by (simp add: unwatchIO_fields)
next
  fix p assume drained: "p \<in> set (awaiters_of fdv s)"
  then show "p \<notin> fst ` set (timer (unwatchIO fdv s))"
    by (auto simp add: unwatchIO_fields)
  from drained show rec: "fibers (unwatchIO fdv s) p =
        map_option (\<lambda>fb. fb\<lparr>f_status := - EBADF\<rparr>) (fibers s p)"
    by (simp add: unwatchIO_fields)
  fix fb assume fb: "p \<noteq> nullptr \<and> fibers s p = Some fb \<and> f_context fb = Some InAwaitIOEvent"
  with rec show "snd (executeFiber p (unwatchIO fdv s)) = LongjmpFiber p InAwaitIOEvent (- EBADF)"
    by (simp add: executeFiber_def Let_def EBADF_def)
  show "awaitIOEvent_resumed (- EBADF) errno = (- 1, EBADF)"
    by (simp add: awaitIOEvent_resumed_def setjmp_returns_def EBADF_def)
qed

lemma ex_awaiting_eq:
  "ex_awaiting =
     \<lparr>fiberCount = 1, sched_context = Some InRun, sched_status = 1, runningFiber = None,
      readyFiberQueue = [], deadFiberQueue = [], timer = [(4096, Some 100)],
      ioPoll = \<lparr>watched = [3], waiters = [(4096, 3, Readability)]\<rparr>,
      fibers = [4096 \<mapsto> \<lparr>f_coroutine = Some 1, f_stack = 4096, f_context = Some InAwaitIOEvent,
                           f_status = 1, f_fd = 3\<rparr>]\<rparr>"
  by (simp add: ex_awaiting_def ex_running_def Scheduler_new_def Fiber_new_def awaitIOEvent_def
        executeNext_def execute_def upd_def Let_def addItem_def addEventAwaiter_def)

theorem unwatchIO_cancels_witness:
  "awaiters_of 3 ex_awaiting = [4096] \<and>
   waiters (ioPoll (unwatchIO 3 ex_awaiting)) = [] \<and>
   readyFiberQueue (unwatchIO 3 ex_awaiting) = [4096] \<and>
   timer (unwatchIO 3 ex_awaiting) = [] \<and>
   map_option f_status (fibers (unwatchIO 3 ex_awaiting) 4096) = Some (- EBADF) \<and>
   snd (executeFiber 4096 (unwatchIO 3 ex_awaiting)) = LongjmpFiber 4096 InAwaitIOEvent (- EBADF) \<and>
   awaitIOEvent_resumed (- EBADF) 0 = (- 1, EBADF)"
  using unwatchIO_cancels [of 3 ex_awaiting 0]
  by (simp add: ex_awaiting_eq nullptr_def unwatchIO_fields awaiters_of_def removeEventAwaiters_def)


subsection \<open>The timer phase\<close>

lemma timedOut_simps [simp]:
  "f_context (timedOut fb) = f_context fb"
  "f_coroutine (timedOut fb) = f_coroutine fb"
  "f_stack (timedOut fb) = f_stack fb"
  "\<not> 0 \<le> f_fd (timedOut fb)"
  "timedOut (timedOut fb) = timedOut fb"
  "f_status (timedOut fb) = (if 0 \<le> f_fd fb then - ETIME else f_status fb)"
  by (simp_all add: timedOut_def)

lemma run_timer_each_fields [simp]:
  "fiberCount (run_timer_each s a) = fiberCount s"
  "sched_context (run_timer_each s a) = sched_context s"
  "sched_status (run_timer_each s a) = sched_status s"
  "runningFiber (run_timer_each s a) = runningFiber s"
  "readyFiberQueue (run_timer_each s a) = readyFiberQueue s @ [a]"
  "deadFiberQueue (run_timer_each s a) = deadFiberQueue s"
  "timer (run_timer_each s a) = timer s"
  "watched (ioPoll (run_timer_each s a)) = watched (ioPoll s)"
  by (simp_all add: run_timer_each_def Let_def removeEventAwaiter_def split: option.splits)

lemma run_timer_each_fibers [simp]:
  "fibers (run_timer_each s a) = (fibers s)(a := map_option timedOut (fibers s a))"
  by (auto simp add: run_timer_each_def Let_def timedOut_def fun_eq_iff split: option.splits)

lemma run_timer_each_waiters [simp]:
  "waiters (ioPoll (run_timer_each s a)) =
     filter (\<lambda>w. \<not> (fst w = a \<and> (\<exists>fb. fibers s a = Some fb \<and> 0 \<le> f_fd fb \<and> fst (snd w) = f_fd fb)))
       (waiters (ioPoll s))"
  by (auto simp add: run_timer_each_def Let_def removeEventAwaiter_def split: option.splits
        intro: filter_cong)

lemma foldl_run_timer_each_fields [simp]:
  "fiberCount (foldl run_timer_each s b) = fiberCount s"
  "sched_context (foldl run_timer_each s b) = sched_context s"
  "sched_status (foldl run_timer_each s b) = sched_status s"
  "runningFiber (foldl run_timer_each s b) = runningFiber s"
  "readyFiberQueue (foldl run_timer_each s b) = readyFiberQueue s @ b"
  "deadFiberQueue (foldl run_timer_each s b) = deadFiberQueue s"
  "timer (foldl run_timer_each s b) = timer s"
  "watched (ioPoll (foldl run_timer_each s b)) = watched (ioPoll s)"
  by (induction b arbitrary: s; simp)+

lemma foldl_run_timer_each_fibers:
  "fibers (foldl run_timer_each s b) p =
     (if p \<in> set b then map_option timedOut (fibers s p) else fibers s p)"
  by (induction b arbitrary: s) (auto simp add: option.map_comp comp_def)

lemma foldl_run_timer_each_waiters:
  "waiters (ioPoll (foldl run_timer_each s b)) =
     filter (\<lambda>w. \<not> (fst w \<in> set b \<and>
                     (\<exists>fb. fibers s (fst w) = Some fb \<and> 0 \<le> f_fd fb \<and> fst (snd w) = f_fd fb)))
       (waiters (ioPoll s))"
proof (induction b arbitrary: s)
  case Nil
  then show ?case by simp
next
  case (Cons a b)
  show ?case
    unfolding foldl_Cons Cons.IH run_timer_each_waiters filter_filter
    by (rule filter_cong) (auto simp add: )
qed


lemma run_timer_alt:
  "run_timer now s =
     foldl run_timer_each (s\<lparr>timer := snd (removeDueItems now 1024 (timer s))\<rparr>)
       (fst (removeDueItems now 1024 (timer s)))"
  by (simp add: run_timer_def split: prod.splits)

lemma due_item_removed:
  assumes "(fiber, Some d) \<in> set tq" and "d \<le> now"
    and "length (filter (isDue now) tq) \<le> cap"
  shows "fiber \<in> set (fst (removeDueItems now cap tq))"
proof -
  have "isDue now (fiber, Some d)"
    using assms(2) by (simp add: isDue_def)
  with assms(1) have "(fiber, Some d) \<in> set (sort_key deadlineKey (filter (isDue now) tq))"
    by simp
  moreover have "take cap (sort_key deadlineKey (filter (isDue now) tq)) =
      sort_key deadlineKey (filter (isDue now) tq)"
    using assms(3) by simp
  ultimately have "(fiber, Some d) \<in> set (take cap (sort_key deadlineKey (filter (isDue now) tq)))"
    by simp
  then have "fst (fiber, Some d) \<in> fst ` set (take cap (sort_key deadlineKey (filter (isDue now) tq)))"
    by (rule imageI)
  then show ?thesis
    by (simp add: removeDueItems_def Let_def)
qed

lemma awaitIOEvent_fields:
  assumes "runningFiber s = Some r"
  shows "fibers (fst (awaitIOEvent now fdv ev timeout s)) =
           (fibers s)(r := map_option (\<lambda>fb. fb\<lparr>f_context := Some InAwaitIOEvent, f_status := 1, f_fd := fdv\<rparr>)
                             (fibers s r))"
    and "timer (fst (awaitIOEvent now fdv ev timeout s)) = addItem now r timeout (timer s)"
    and "ioPoll (fst (awaitIOEvent now fdv ev timeout s)) = addEventAwaiter r fdv ev (ioPoll s)"
    and "readyFiberQueue (fst (awaitIOEvent now fdv ev timeout s)) = tl (readyFiberQueue s)"
    and "deadFiberQueue (fst (awaitIOEvent now fdv ev timeout s)) = deadFiberQueue s"
    and "runningFiber (fst (awaitIOEvent now fdv ev timeout s)) =
           (case readyFiberQueue s of [] \<Rightarrow> None
            | f # rest \<Rightarrow> if f = nullptr then Some r else Some f)"
    and "fiberCount (fst (awaitIOEvent now fdv ev timeout s)) = fiberCount s"
  using assms
  by (auto simp add: awaitIOEvent_def Let_def fun_eq_iff option.map_comp comp_def split: list.splits)

text \<open>
  Claim C1, amended: the status is \<^verbatim>\<open>-ETIME\<close> and the error reported is \<^verbatim>\<open>ETIME\<close>.
  A call of \<^verbatim>\<open>awaitIOEvent\<close> with a timeout that is not negative leaves the fiber with its
  context saved in \<^verbatim>\<open>awaitIOEvent\<close>, status 1 and the descriptor in its fd field, in the
  wait set and in the timer queue with deadline now + timeout. A timer phase takes the
  item of such a fiber once it is due (at the latest when no more than 1024 items are
  due, the size of the buffer); it then sets the fiber's fd to -1 and its status to
  \<^verbatim>\<open>-ETIME\<close>, unlinks it from the wait set of its descriptor and appends it to the ready
  queue. Executed, the fiber's \<^verbatim>\<open>awaitIOEvent\<close> returns -1 with \<^verbatim>\<open>errno\<close> set to \<^verbatim>\<open>ETIME\<close>.
\<close>

theorem awaitIOEvent_times_out:
  "(runningFiber s0 = Some r \<and> fibers s0 r = Some fb0 \<and> 0 \<le> timeout \<longrightarrow>
      fibers (fst (awaitIOEvent t0 fdv ev timeout s0)) r =
        Some (fb0\<lparr>f_context := Some InAwaitIOEvent, f_status := 1, f_fd := fdv\<rparr>) \<and>
      (r, Some (t0 + timeout)) \<in> set (timer (fst (awaitIOEvent t0 fdv ev timeout s0))) \<and>
      (r, fdv, ev) \<in> set (waiters (ioPoll (fst (awaitIOEvent t0 fdv ev timeout s0))))) \<and>
   ((fiber, Some d) \<in> set (timer s) \<and> d \<le> now \<and> length (filter (isDue now) (timer s)) \<le> 1024 \<longrightarrow>
      fiber \<in> set (fst (removeDueItems now 1024 (timer s)))) \<and>
   (fibers s fiber = Some fb \<and> 0 \<le> f_fd fb \<and>
    fiber \<in> set (fst (removeDueItems now 1024 (timer s))) \<longrightarrow>
      fibers (run_timer now s) fiber = Some (fb\<lparr>f_fd := - 1, f_status := - ETIME\<rparr>) \<and>
      fiber \<in> set (readyFiberQueue (run_timer now s)) \<and>
      (\<forall>w \<in> set (waiters (ioPoll (run_timer now s))). \<not> (fst w = fiber \<and> fst (snd w) = f_fd fb)) \<and>
      (fiber \<noteq> nullptr \<and> f_context fb = Some InAwaitIOEvent \<longrightarrow>
         snd (executeFiber fiber (run_timer now s)) = LongjmpFiber fiber InAwaitIOEvent (- ETIME) \<and>
         awaitIOEvent_resumed (- ETIME) errno = (- 1, ETIME)))"
proof (intro conjI impI)
  assume a: "runningFiber s0 = Some r \<and> fibers s0 r = Some fb0 \<and> 0 \<le> timeout"
  then have r: "runningFiber s0 = Some r" by simp
  from a show "fibers (fst (awaitIOEvent t0 fdv ev timeout s0)) r =
        Some (fb0\<lparr>f_context := Some InAwaitIOEvent, f_status := 1, f_fd := fdv\<rparr>)"
    by (simp add: awaitIOEvent_fields [OF r])
  from a show "(r, Some (t0 + timeout)) \<in> set (timer (fst (awaitIOEvent t0 fdv ev timeout s0)))"
    by (simp add: awaitIOEvent_fields [OF r] addItem_def)
  show "(r, fdv, ev) \<in> set (waiters (ioPoll (fst (awaitIOEvent t0 fdv ev timeout s0))))"
    by (simp add: awaitIOEvent_fields [OF r] addEventAwaiter_def)
next
  assume "(fiber, Some d) \<in> set (timer s) \<and> d \<le> now \<and> length (filter (isDue now) (timer s)) \<le> 1024"
  then show "fiber \<in> set (fst (removeDueItems now 1024 (timer s)))"
    by (intro due_item_removed [where d = d]) auto
next
  assume b: "fibers s fiber = Some fb \<and> 0 \<le> f_fd fb \<and>
    fiber \<in> set (fst (removeDueItems now 1024 (timer s)))"
  then have due: "fiber \<in> set (fst (removeDueItems now 1024 (timer s)))"
    by simp
  from b due show rec: "fibers (run_timer now s) fiber = Some (fb\<lparr>f_fd := - 1, f_status := - ETIME\<rparr>)"
    by (simp add: run_timer_alt foldl_run_timer_each_fibers timedOut_def)
  from due show "fiber \<in> set (readyFiberQueue (run_timer now s))"
    by (simp add: run_timer_alt)
  from b due show "\<forall>w \<in> set (waiters (ioPoll (run_timer now s))). \<not> (fst w = fiber \<and> fst (snd w) = f_fd fb)"
    by (auto simp add: run_timer_alt foldl_run_timer_each_waiters)
  show "awaitIOEvent_resumed (- ETIME) errno = (- 1, ETIME)"
    if "fiber \<noteq> nullptr \<and> f_context fb = Some InAwaitIOEvent"
    by (simp add: awaitIOEvent_resumed_def setjmp_returns_def ETIME_def)
  show "snd (executeFiber fiber (run_timer now s)) = LongjmpFiber fiber InAwaitIOEvent (- ETIME)"
    if "fiber \<noteq> nullptr \<and> f_context fb = Some InAwaitIOEvent"
    using that rec by (simp add: executeFiber_def Let_def ETIME_def)
qed

lemma run_timer_ex_awaiting:
  "run_timer 100 ex_awaiting =
     \<lparr>fiberCount = 1, sched_context = Some InRun, sched_status = 1, runningFiber = None,
      readyFiberQueue = [4096], deadFiberQueue = [], timer = [],
      ioPoll = \<lparr>watched = [3], waiters = []\<rparr>,
      fibers = [4096 \<mapsto> \<lparr>f_coroutine = Some 1, f_stack = 4096, f_context = Some InAwaitIOEvent,
                           f_status = - 62, f_fd = - 1\<rparr>]\<rparr>"
  by (simp add: ex_awaiting_eq run_timer_def removeDueItems_def isDue_def Let_def
        run_timer_each_def removeEventAwaiter_def upd_def ETIME_def)

text \<open>
  Claim C1 as stated fails: after the timer phase at time 100 the fiber of \<open>ex_awaiting\<close>
  has status -62, which is \<^verbatim>\<open>-ETIME\<close> and not \<^verbatim>\<open>-ETIMEDOUT\<close> (-110), and its
  \<^verbatim>\<open>awaitIOEvent\<close> returns -1 with \<^verbatim>\<open>errno\<close> 62, not \<^verbatim>\<open>ETIMEDOUT\<close>.
\<close>

theorem awaitIOEvent_times_out_counterexample:
  "map_option f_status (fibers (run_timer 100 ex_awaiting) 4096) = Some (- 62) \<and>
   map_option f_status (fibers (run_timer 100 ex_awaiting) 4096) \<noteq> Some (- ETIMEDOUT) \<and>
   snd (executeFiber 4096 (run_timer 100 ex_awaiting)) = LongjmpFiber 4096 InAwaitIOEvent (- 62) \<and>
   awaitIOEvent_resumed (- 62) 0 = (- 1, 62) \<and>
   awaitIOEvent_resumed (- 62) 0 \<noteq> (- 1, ETIMEDOUT)"
  by (simp add: run_timer_ex_awaiting executeFiber_def nullptr_def Let_def ETIMEDOUT_def
        awaitIOEvent_resumed_def setjmp_returns_def)

theorem awaitIOEvent_times_out_witness:
  "ex_awaiting = fst (awaitIOEvent 0 3 Readability 100 ex_running) \<and>
   fibers ex_awaiting 4096 =
     Some ((Fiber_new (Some 1) 4096)\<lparr>f_context := Some InAwaitIOEvent, f_status := 1, f_fd := 3\<rparr>) \<and>
   (4096, Some 100) \<in> set (timer ex_awaiting) \<and>
   (4096, 3, Readability) \<in> set (waiters (ioPoll ex_awaiting)) \<and>
   4096 \<in> set (fst (removeDueItems 100 1024 (timer ex_awaiting))) \<and>
   map_option f_fd (fibers (run_timer 100 ex_awaiting) 4096) = Some (- 1) \<and>
   map_option f_status (fibers (run_timer 100 ex_awaiting) 4096) = Some (- ETIME) \<and>
   4096 \<in> set (readyFiberQueue (run_timer 100 ex_awaiting)) \<and>
   waiters (ioPoll (run_timer 100 ex_awaiting)) = [] \<and>
   snd (executeFiber 4096 (run_timer 100 ex_awaiting)) = LongjmpFiber 4096 InAwaitIOEvent (- ETIME) \<and>
   awaitIOEvent_resumed (- ETIME) 0 = (- 1, ETIME)"
  using awaitIOEvent_times_out [where ?s0.0 = ex_running and r = 4096
          and ?fb0.0 = "Fiber_new (Some 1) 4096" and timeout = 100 and ?t0.0 = 0 and fdv = 3
          and ev = Readability and s = ex_awaiting and fiber = 4096
          and fb = "\<lparr>f_coroutine = Some 1, f_stack = 4096, f_context = Some InAwaitIOEvent,
                     f_status = 1, f_fd = 3\<rparr>"
          and d = 100 and now = 100 and errno = 0]
  by (simp add: ex_awaiting_def [symmetric] run_timer_ex_awaiting)
     (simp add: ex_awaiting_eq ex_running_def Scheduler_new_def Fiber_new_def isDue_def nullptr_def
        ETIME_def removeDueItems_def)

subsection \<open>Every operation preserves the invariant\<close>

text \<open>Emptying the running slot keeps the invariant; so does \<open>executeNext\<close> after that.\<close>

lemma sched_inv_no_running:
  "sched_inv s \<Longrightarrow> sched_inv (s\<lparr>runningFiber := None\<rparr>)"
  unfolding sched_inv_def suspended_def queued_def
  by (simp add: disjoint_iff subset_iff)

lemma executeNext_inv:
  assumes "sched_inv (t\<lparr>runningFiber := None\<rparr>)"
  shows "sched_inv (fst (executeNext t))"
proof (cases "readyFiberQueue t")
  case Nil
  then have "fst (executeNext t) = t\<lparr>runningFiber := None\<rparr>"
    by (simp add: executeNext_def execute_def Let_def split: option.splits)
  with assms show ?thesis by simp
next
  case (Cons f rest)
  from assms Cons have "f \<noteq> nullptr"
    unfolding sched_inv_def queued_def by auto
  with Cons have eq: "fst (executeNext t) = t\<lparr>readyFiberQueue := rest, runningFiber := Some f\<rparr>"
    by (simp add: executeNext_def executeFiber_def Let_def split: option.splits)
  from assms Cons show ?thesis
    unfolding eq sched_inv_def suspended_def queued_def
    by (simp add: disjoint_iff subset_iff)
qed

text \<open>
  Each suspending method is: the assignments to the running fiber and its linking into a
  queue, then \<open>executeNext\<close>.
\<close>

lemma killCurrentFiber_eq:
  "runningFiber s = Some r \<Longrightarrow>
   killCurrentFiber s =
     executeNext (s\<lparr>fibers := (fibers s)(r := map_option (\<lambda>fb. fb\<lparr>f_context := None, f_status := 0\<rparr>) (fibers s r)),
                    deadFiberQueue := deadFiberQueue s @ [r]\<rparr>)"
  by (simp add: killCurrentFiber_def Let_def upd_def option.map_comp comp_def)

lemma sleepCurrentFiber_eq:
  "runningFiber s = Some r \<Longrightarrow>
   sleepCurrentFiber now duration s =
     executeNext (s\<lparr>fibers := (fibers s)(r := map_option (\<lambda>fb. fb\<lparr>f_context := Some InSleepCurrentFiber, f_status := 1\<rparr>) (fibers s r)),
                    timer := addItem now r duration (timer s)\<rparr>)"
  by (simp add: sleepCurrentFiber_def Let_def upd_def option.map_comp comp_def)

lemma awaitIOEvent_eq:
  "runningFiber s = Some r \<Longrightarrow>
   awaitIOEvent now fdv ev timeout s =
     executeNext (s\<lparr>fibers := (fibers s)(r := map_option (\<lambda>fb. fb\<lparr>f_context := Some InAwaitIOEvent, f_status := 1, f_fd := fdv\<rparr>) (fibers s r)),
                    ioPoll := addEventAwaiter r fdv ev (ioPoll s),
                    timer := addItem now r timeout (timer s)\<rparr>)"
  by (simp add: awaitIOEvent_def Let_def upd_def option.map_comp comp_def)

lemma yieldCurrentFiber_eq:
  "runningFiber s = Some r \<Longrightarrow> readyFiberQueue s \<noteq> [] \<Longrightarrow>
   yieldCurrentFiber s =
     executeNext (s\<lparr>fibers := (fibers s)(r := map_option (\<lambda>fb. fb\<lparr>f_context := Some InYieldCurrentFiber, f_status := 1\<rparr>) (fibers s r)),
                    readyFiberQueue := readyFiberQueue s @ [r]\<rparr>)"
  by (cases "readyFiberQueue s")
     (simp_all add: yieldCurrentFiber_def executeNext_def Let_def upd_def option.map_comp comp_def)

lemma run_dispatch_eq:
  "readyFiberQueue s \<noteq> [] \<Longrightarrow>
   run_dispatch s = executeNext (s\<lparr>sched_context := Some InRun, sched_status := 1\<rparr>)"
  by (cases "readyFiberQueue s") (simp_all add: run_dispatch_def executeNext_def Let_def)

lemma killCurrentFiber_inv:
  assumes "sched_inv s"
  shows "sched_inv (fst (killCurrentFiber s))"
proof (cases "runningFiber s")
  case None
  with assms show ?thesis by (simp add: killCurrentFiber_def)
next
  case (Some r)
  have "sched_inv (s\<lparr>fibers := (fibers s)(r := map_option (\<lambda>fb. fb\<lparr>f_context := None, f_status := 0\<rparr>) (fibers s r)),
                    deadFiberQueue := deadFiberQueue s @ [r], runningFiber := None\<rparr>)"
    using assms Some unfolding sched_inv_def suspended_def queued_def
    by (simp add: disjoint_iff subset_iff) auto
  then show ?thesis
    unfolding killCurrentFiber_eq [OF Some] by (intro executeNext_inv) simp
qed

lemma sleepCurrentFiber_inv:
  assumes "sched_inv s"
  shows "sched_inv (fst (sleepCurrentFiber now duration s))"
proof (cases "runningFiber s")
  case None
  with assms show ?thesis by (simp add: sleepCurrentFiber_def)
next
  case (Some r)
  have "sched_inv (s\<lparr>fibers := (fibers s)(r := map_option (\<lambda>fb. fb\<lparr>f_context := Some InSleepCurrentFiber, f_status := 1\<rparr>) (fibers s r)),
                    timer := addItem now r duration (timer s), runningFiber := None\<rparr>)"
    using assms Some unfolding sched_inv_def suspended_def queued_def addItem_def
    by (simp add: disjoint_iff subset_iff) auto
  then show ?thesis
    unfolding sleepCurrentFiber_eq [OF Some] by (intro executeNext_inv) simp
qed

lemma awaitIOEvent_inv:
  assumes "sched_inv s" and "0 \<le> fdv"
  shows "sched_inv (fst (awaitIOEvent now fdv ev timeout s))"
proof (cases "runningFiber s")
  case None
  with assms show ?thesis by (simp add: awaitIOEvent_def)
next
  case (Some r)
  have "sched_inv (s\<lparr>fibers := (fibers s)(r := map_option (\<lambda>fb. fb\<lparr>f_context := Some InAwaitIOEvent, f_status := 1, f_fd := fdv\<rparr>) (fibers s r)),
                    ioPoll := addEventAwaiter r fdv ev (ioPoll s),
                    timer := addItem now r timeout (timer s), runningFiber := None\<rparr>)"
    using assms Some unfolding sched_inv_def suspended_def queued_def addItem_def addEventAwaiter_def
    by (simp add: disjoint_iff subset_iff) auto
  then show ?thesis
    unfolding awaitIOEvent_eq [OF Some] by (intro executeNext_inv) simp
qed

lemma yieldCurrentFiber_inv:
  assumes "sched_inv s"
  shows "sched_inv (fst (yieldCurrentFiber s))"
proof (cases "runningFiber s")
  case None
  with assms show ?thesis by (simp add: yieldCurrentFiber_def)
next
  case (Some r)
  show ?thesis
  proof (cases "readyFiberQueue s = []")
    case True
    with Some assms show ?thesis by (simp add: yieldCurrentFiber_def)
  next
    case False
    have "sched_inv (s\<lparr>fibers := (fibers s)(r := map_option (\<lambda>fb. fb\<lparr>f_context := Some InYieldCurrentFiber, f_status := 1\<rparr>) (fibers s r)),
                    readyFiberQueue := readyFiberQueue s @ [r], runningFiber := None\<rparr>)"
      using assms Some unfolding sched_inv_def suspended_def queued_def
      by (simp add: disjoint_iff subset_iff) auto
    then show ?thesis
      unfolding yieldCurrentFiber_eq [OF Some False] by (intro executeNext_inv) simp
  qed
qed

lemma run_dispatch_inv:
  assumes "sched_inv s"
  shows "sched_inv (fst (run_dispatch s))"
proof (cases "readyFiberQueue s = []")
  case True
  with assms show ?thesis by (simp add: run_dispatch_def)
next
  case False
  have "sched_inv (s\<lparr>sched_context := Some InRun, sched_status := 1, runningFiber := None\<rparr>)"
    using assms unfolding sched_inv_def suspended_def queued_def
    by (simp add: disjoint_iff subset_iff)
  then show ?thesis
    unfolding run_dispatch_eq [OF False] by (intro executeNext_inv) simp
qed

lemma watchIO_inv:
  "sched_inv s \<Longrightarrow> sched_inv (watchIO fdv s)"
  unfolding sched_inv_def suspended_def queued_def watchIO_def watch_def
  by (simp add: disjoint_iff subset_iff)

lemma callCoroutine_inv:
  assumes "sched_inv s" and "admissible (Op_callCoroutine sz region c) s"
    and "callCoroutine sz region c s = Inr s'"
  shows "sched_inv s'"
proof (cases "deadFiberQueue s")
  case (Cons fiber rest)
  with assms(3) have eq: "s' = s\<lparr>deadFiberQueue := rest,
      fibers := (fibers s)(fiber := map_option (\<lambda>fb. fb\<lparr>f_coroutine := c\<rparr>) (fibers s fiber)),
      readyFiberQueue := readyFiberQueue s @ [fiber]\<rparr>"
    by (auto simp add: callCoroutine_def Let_def upd_def)
  from assms(1) Cons show ?thesis
    unfolding eq sched_inv_def suspended_def queued_def
    by (simp add: disjoint_iff subset_iff) (auto simp add: )
next
  case Nil
  let ?f = "region + TARA_FIBER_SIZE - sz"
  from Nil assms(3) have ok: "region \<noteq> nullptr"
    by (auto simp add: callCoroutine_def CreateFiber_def)
  with Nil assms(3) have eq: "s' = s\<lparr>fibers := (fibers s)(?f \<mapsto> Fiber_new c ?f),
      fiberCount := fiberCount s + 1, readyFiberQueue := readyFiberQueue s @ [?f]\<rparr>"
    by (auto simp add: callCoroutine_def CreateFiber_def Let_def)
  from Nil ok assms(2) have fresh: "?f \<noteq> nullptr" "fibers s ?f = None"
    by auto
  from assms(1) fresh have notin: "?f \<notin> suspended s \<union> queued s"
    unfolding sched_inv_def by (auto simp add: subset_iff dom_def)
  from assms(1) Nil fresh notin show ?thesis
    unfolding eq sched_inv_def suspended_def queued_def
    by (simp add: disjoint_iff subset_iff Fiber_new_def) (auto simp add: )
qed

text \<open>
  Waking: a duplicate-free list of suspended fibers goes to the tail of the ready queue,
  the timer queue and the wait sets shrink to entries of other fibers, and the woken
  fibers' records change without touching a context or zeroing a status. The poll phase,
  the timer phase and \<^verbatim>\<open>unwatchIO\<close> are instances.
\<close>

lemma wake_inv:
  assumes inv: "sched_inv s"
    and q: "distinct q" "set q \<subseteq> suspended s"
    and tq: "set tq \<subseteq> set (timer s)" "distinct (map fst tq)" "fst ` set tq \<inter> set q = {}"
    and ws: "set ws \<subseteq> set (waiters (ioPoll s))" "distinct (map fst ws)" "fst ` set ws \<inter> set q = {}"
    and g: "\<And>fb. f_context (g fb) = f_context fb" "\<And>fb. f_status fb \<noteq> 0 \<Longrightarrow> f_status (g fb) \<noteq> 0"
  shows "sched_inv (s\<lparr>timer := tq, ioPoll := \<lparr>watched = wd, waiters = ws\<rparr>,
           fibers := (\<lambda>p. if p \<in> set q then map_option g (fibers s p) else fibers s p),
           readyFiberQueue := readyFiberQueue s @ q\<rparr>)"
proof -
  let ?s' = "s\<lparr>timer := tq, ioPoll := \<lparr>watched = wd, waiters = ws\<rparr>,
           fibers := (\<lambda>p. if p \<in> set q then map_option g (fibers s p) else fibers s p),
           readyFiberQueue := readyFiberQueue s @ q\<rparr>"
  have sub: "suspended ?s' \<subseteq> suspended s"
    using tq(1) ws(1) by (auto simp add: suspended_def)
  have qd: "queued ?s' = queued s \<union> set q"
    by (auto simp add: queued_def)
  have sq: "suspended ?s' \<inter> set q = {}"
    using tq(3) ws(3) by (auto simp add: suspended_def)
  have disj: "suspended s \<inter> queued s = {}"
    using inv by (simp add: sched_inv_def)
  have dom_eq: "dom (fibers ?s') = dom (fibers s)"
    by (auto simp add: dom_def split: if_splits)
  have c1: "distinct (readyFiberQueue ?s' @ deadFiberQueue ?s')"
    using inv q disj by (auto simp add: sched_inv_def queued_def)
  have c2: "set_option (runningFiber ?s') \<inter> (set (readyFiberQueue ?s') \<union> set (deadFiberQueue ?s')) = {}"
    using inv q disj by (auto simp add: sched_inv_def queued_def)
  have c3: "suspended ?s' \<inter> queued ?s' = {}"
    using sub sq disj unfolding qd by blast
  have c4: "distinct (map fst (timer ?s'))" "distinct (map fst (waiters (ioPoll ?s')))"
    using tq(2) ws(2) by simp_all
  have c5: "\<forall>w \<in> set (waiters (ioPoll ?s')).
        0 \<le> fst (snd w) \<and> (\<exists>fb. fibers ?s' (fst w) = Some fb \<and> f_fd fb = fst (snd w))"
  proof
    fix w assume w: "w \<in> set (waiters (ioPoll ?s'))"
    then have "w \<in> set (waiters (ioPoll s))" using ws(1) by auto
    with inv have old: "0 \<le> fst (snd w) \<and> (\<exists>fb. fibers s (fst w) = Some fb \<and> f_fd fb = fst (snd w))"
      by (simp add: sched_inv_def)
    from w ws(3) have "fst w \<notin> set q" by auto
    with old show "0 \<le> fst (snd w) \<and> (\<exists>fb. fibers ?s' (fst w) = Some fb \<and> f_fd fb = fst (snd w))"
      by simp
  qed
  have c6: "suspended ?s' \<union> queued ?s' \<subseteq> dom (fibers ?s')"
    using inv sub q(2) unfolding qd dom_eq by (auto simp add: sched_inv_def)
  have c7: "nullptr \<notin> suspended ?s' \<union> queued ?s'"
    using inv sub q(2) unfolding qd by (auto simp add: sched_inv_def)
  have ctx: "f_context fb' = f_context fb \<and> (f_status fb \<noteq> 0 \<longrightarrow> f_status fb' \<noteq> 0) \<and> (p \<notin> set q \<longrightarrow> fb' = fb)"
    if "fibers ?s' p = Some fb'" "fibers s p = Some fb" for p fb fb'
    using that g by (auto split: if_splits)
  have ex_old: "\<exists>fb. fibers s p = Some fb" if "fibers ?s' p = Some fb'" for p fb'
    using that by (auto split: if_splits)
  have c8: "\<forall>p \<in> suspended ?s'. \<forall>fb. fibers ?s' p = Some fb \<longrightarrow> f_context fb \<noteq> None"
  proof (intro ballI allI impI)
    fix p fb' assume p: "p \<in> suspended ?s'" and fb': "fibers ?s' p = Some fb'"
    from ex_old [OF fb'] obtain fb where fb: "fibers s p = Some fb" ..
    from p sub have "p \<in> suspended s" by auto
    with inv fb have "f_context fb \<noteq> None" by (simp add: sched_inv_def)
    with ctx [OF fb' fb] show "f_context fb' \<noteq> None" by simp
  qed
  have c9: "\<forall>p fb. fibers ?s' p = Some fb \<longrightarrow> (f_status fb = 0 \<longleftrightarrow> f_context fb = None)"
  proof (intro allI impI)
    fix p fb' assume fb': "fibers ?s' p = Some fb'"
    from ex_old [OF fb'] obtain fb where fb: "fibers s p = Some fb" ..
    from inv fb have iff: "f_status fb = 0 \<longleftrightarrow> f_context fb = None" by (simp add: sched_inv_def)
    show "f_status fb' = 0 \<longleftrightarrow> f_context fb' = None"
    proof (cases "p \<in> set q")
      case False
      with ctx [OF fb' fb] iff show ?thesis by simp
    next
      case True
      with q(2) have "p \<in> suspended s" by auto
      with inv fb have "f_context fb \<noteq> None" by (simp add: sched_inv_def)
      with iff ctx [OF fb' fb] show ?thesis by simp
    qed
  qed
  show ?thesis
    unfolding sched_inv_def using c1 c2 c3 c4 c5 c6 c7 c8 c9 by blast
qed

lemma inj_fst_distinct:
  "distinct (map fst xs) \<Longrightarrow> x \<in> set xs \<Longrightarrow> y \<in> set xs \<Longrightarrow> fst x = fst y \<Longrightarrow> x = y"
  by (auto simp add: distinct_map inj_on_def)

lemma unwatchIO_eq:
  "unwatchIO fdv s =
     s\<lparr>timer := filter (\<lambda>e. fst e \<notin> set (awaiters_of fdv s)) (timer s),
       ioPoll := \<lparr>watched = removeAll fdv (watched (ioPoll s)),
                  waiters = filter (\<lambda>w. fst (snd w) \<noteq> fdv) (waiters (ioPoll s))\<rparr>,
       fibers := (\<lambda>p. if p \<in> set (awaiters_of fdv s)
                       then map_option (\<lambda>fb. fb\<lparr>f_status := - EBADF\<rparr>) (fibers s p)
                       else fibers s p),
       readyFiberQueue := readyFiberQueue s @ awaiters_of fdv s\<rparr>"
  by (rule Scheduler.equality) (simp_all add: unwatchIO_fields removeEventAwaiters_def fun_eq_iff)

lemma unwatchIO_inv:
  assumes "sched_inv s"
  shows "sched_inv (unwatchIO fdv s)"
  unfolding unwatchIO_eq
proof (rule wake_inv [OF assms])
  have dw: "distinct (map fst (waiters (ioPoll s)))" and dt: "distinct (map fst (timer s))"
    using assms by (simp_all add: sched_inv_def)
  show "distinct (awaiters_of fdv s)"
    unfolding awaiters_of_def using dw by (rule distinct_map_filter)
  show "set (awaiters_of fdv s) \<subseteq> suspended s"
    by (auto simp add: awaiters_of_def suspended_def)
  show "set (filter (\<lambda>e. fst e \<notin> set (awaiters_of fdv s)) (timer s)) \<subseteq> set (timer s)"
    by auto
  show "distinct (map fst (filter (\<lambda>e. fst e \<notin> set (awaiters_of fdv s)) (timer s)))"
    using dt by (rule distinct_map_filter)
  show "fst ` set (filter (\<lambda>e. fst e \<notin> set (awaiters_of fdv s)) (timer s)) \<inter> set (awaiters_of fdv s) = {}"
    by auto
  show "set (filter (\<lambda>w. fst (snd w) \<noteq> fdv) (waiters (ioPoll s))) \<subseteq> set (waiters (ioPoll s))"
    by auto
  show "distinct (map fst (filter (\<lambda>w. fst (snd w) \<noteq> fdv) (waiters (ioPoll s))))"
    using dw by (rule distinct_map_filter)
  show "fst ` set (filter (\<lambda>w. fst (snd w) \<noteq> fdv) (waiters (ioPoll s))) \<inter> set (awaiters_of fdv s) = {}"
    using inj_fst_distinct [OF dw] by (fastforce simp add: awaiters_of_def)
  show "\<And>fb. f_context (fb\<lparr>f_status := - EBADF\<rparr>) = f_context fb"
    by simp
  show "\<And>fb. f_status fb \<noteq> 0 \<Longrightarrow> f_status (fb\<lparr>f_status := - EBADF\<rparr>) \<noteq> 0"
    by (simp add: EBADF_def)
qed


lemma waitLoop_Some:
  "waitLoop tq script p acc = Some (p', q) \<Longrightarrow>
     \<exists>evs. q = acc @ map fst (filter (\<lambda>w. snd w \<in> set evs) (waiters p)) \<and>
           p' = p\<lparr>waiters := filter (\<lambda>w. snd w \<notin> set evs) (waiters p)\<rparr>"
proof (induction script arbitrary: p acc)
  case Nil
  then show ?case by simp
next
  case (Cons nk script)
  obtain now k where nk: "nk = (now, k)" by (cases nk)
  show ?case
  proof (cases k)
    case Interrupted
    with Cons.prems nk have "waitLoop tq script p acc = Some (p', q)"
      by (simp add: waitForEvents_def)
    then show ?thesis by (rule Cons.IH)
  next
    case TimedOut
    with Cons.prems nk have "q = acc" "p' = p"
      by (simp_all add: waitForEvents_def)
    then have "q = acc @ map fst (filter (\<lambda>w. snd w \<in> set []) (waiters p)) \<and>
           p' = p\<lparr>waiters := filter (\<lambda>w. snd w \<notin> set []) (waiters p)\<rparr>"
      by simp
    then show ?thesis by (rule exI)
  next
    case (Ready evs)
    show ?thesis
    proof (cases "filter (\<lambda>w. snd w \<in> set evs) (waiters p) = []")
      case False
      with Ready Cons.prems nk have "q = acc @ map fst (filter (\<lambda>w. snd w \<in> set evs) (waiters p)) \<and>
           p' = p\<lparr>waiters := filter (\<lambda>w. snd w \<notin> set evs) (waiters p)\<rparr>"
        by (auto simp add: waitForEvents_def Let_def)
      then show ?thesis by (rule exI)
    next
      case True
      then have "filter (\<lambda>w. snd w \<notin> set evs) (waiters p) = waiters p"
        by (simp add: filter_empty_conv)
      with True Ready Cons.prems nk have "waitLoop tq script p acc = Some (p', q)"
        by (simp add: waitForEvents_def Let_def)
      then show ?thesis by (rule Cons.IH)
    qed
  qed
qed

lemma run_poll_wake_fields [simp]:
  "fiberCount (run_poll_wake s a) = fiberCount s"
  "sched_context (run_poll_wake s a) = sched_context s"
  "sched_status (run_poll_wake s a) = sched_status s"
  "runningFiber (run_poll_wake s a) = runningFiber s"
  "readyFiberQueue (run_poll_wake s a) = readyFiberQueue s"
  "deadFiberQueue (run_poll_wake s a) = deadFiberQueue s"
  "timer (run_poll_wake s a) = timer s"
  "ioPoll (run_poll_wake s a) = ioPoll s"
  "fibers (run_poll_wake s a) = (fibers s)(a := map_option (\<lambda>fb. fb\<lparr>f_status := 1, f_fd := - 1\<rparr>) (fibers s a))"
  by (simp_all add: run_poll_wake_def)

lemma foldl_run_poll_wake_fields [simp]:
  "fiberCount (foldl run_poll_wake s q) = fiberCount s"
  "sched_context (foldl run_poll_wake s q) = sched_context s"
  "sched_status (foldl run_poll_wake s q) = sched_status s"
  "runningFiber (foldl run_poll_wake s q) = runningFiber s"
  "readyFiberQueue (foldl run_poll_wake s q) = readyFiberQueue s"
  "deadFiberQueue (foldl run_poll_wake s q) = deadFiberQueue s"
  "timer (foldl run_poll_wake s q) = timer s"
  "ioPoll (foldl run_poll_wake s q) = ioPoll s"
  by (induction q arbitrary: s; simp)+

lemma foldl_run_poll_wake_fibers:
  "fibers (foldl run_poll_wake s q) p =
     (if p \<in> set q then map_option (\<lambda>fb. fb\<lparr>f_status := 1, f_fd := - 1\<rparr>) (fibers s p) else fibers s p)"
  by (induction q arbitrary: s) (auto simp add: option.map_comp comp_def)

lemma run_poll_each_fields [simp]:
  "fiberCount (run_poll_each s a) = fiberCount s"
  "sched_context (run_poll_each s a) = sched_context s"
  "sched_status (run_poll_each s a) = sched_status s"
  "runningFiber (run_poll_each s a) = runningFiber s"
  "readyFiberQueue (run_poll_each s a) = readyFiberQueue s"
  "deadFiberQueue (run_poll_each s a) = deadFiberQueue s"
  "timer (run_poll_each s a) = removeItem a (timer s)"
  "ioPoll (run_poll_each s a) = ioPoll s"
  "fibers (run_poll_each s a) = fibers s"
  by (simp_all add: run_poll_each_def)

lemma foldl_run_poll_each_fields [simp]:
  "fiberCount (foldl run_poll_each s q) = fiberCount s"
  "sched_context (foldl run_poll_each s q) = sched_context s"
  "sched_status (foldl run_poll_each s q) = sched_status s"
  "runningFiber (foldl run_poll_each s q) = runningFiber s"
  "readyFiberQueue (foldl run_poll_each s q) = readyFiberQueue s"
  "deadFiberQueue (foldl run_poll_each s q) = deadFiberQueue s"
  "ioPoll (foldl run_poll_each s q) = ioPoll s"
  "fibers (foldl run_poll_each s q) = fibers s"
  by (induction q arbitrary: s; simp)+

lemma foldl_run_poll_each_timer:
  "timer (foldl run_poll_each s q) = filter (\<lambda>e. fst e \<notin> set q) (timer s)"
  by (induction q arbitrary: s) (auto simp add: removeItem_def intro: filter_cong)

lemma run_poll_Some:
  assumes "run_poll script s = Some s'"
  shows "\<exists>evs. s' =
     s\<lparr>timer := filter (\<lambda>e. fst e \<notin> set (map fst (filter (\<lambda>w. snd w \<in> set evs) (waiters (ioPoll s))))) (timer s),
       ioPoll := \<lparr>watched = watched (ioPoll s),
                  waiters = filter (\<lambda>w. snd w \<notin> set evs) (waiters (ioPoll s))\<rparr>,
       fibers := (\<lambda>p. if p \<in> set (map fst (filter (\<lambda>w. snd w \<in> set evs) (waiters (ioPoll s))))
                       then map_option (\<lambda>fb. fb\<lparr>f_status := 1, f_fd := - 1\<rparr>) (fibers s p)
                       else fibers s p),
       readyFiberQueue := readyFiberQueue s @ map fst (filter (\<lambda>w. snd w \<in> set evs) (waiters (ioPoll s)))\<rparr>"
proof -
  from assms obtain p q where
    loop: "waitLoop (timer s) script (ioPoll s) [] = Some (p, q)"
    by (auto simp add: run_poll_def split: option.splits)
  from waitLoop_Some [OF loop] obtain evs where
    q: "q = map fst (filter (\<lambda>w. snd w \<in> set evs) (waiters (ioPoll s)))" and
    p: "p = (ioPoll s)\<lparr>waiters := filter (\<lambda>w. snd w \<notin> set evs) (waiters (ioPoll s))\<rparr>"
    by auto
  have s': "s' = (let s1 = foldl run_poll_wake (s\<lparr>ioPoll := p\<rparr>) q;
                     s2 = foldl run_poll_each s1 q
                 in s2\<lparr>readyFiberQueue := readyFiberQueue s2 @ q\<rparr>)"
    using assms loop by (auto simp add: run_poll_def Let_def)
  have "s' = s\<lparr>timer := filter (\<lambda>e. fst e \<notin> set q) (timer s),
       ioPoll := \<lparr>watched = watched (ioPoll s),
                  waiters = filter (\<lambda>w. snd w \<notin> set evs) (waiters (ioPoll s))\<rparr>,
       fibers := (\<lambda>p. if p \<in> set q
                       then map_option (\<lambda>fb. fb\<lparr>f_status := 1, f_fd := - 1\<rparr>) (fibers s p)
                       else fibers s p),
       readyFiberQueue := readyFiberQueue s @ q\<rparr>"
    unfolding s' Let_def
    by (rule Scheduler.equality)
       (simp_all add: foldl_run_poll_each_timer foldl_run_poll_wake_fibers fun_eq_iff p)
  then show ?thesis unfolding q by blast
qed

lemma run_poll_inv:
  assumes "sched_inv s" and "run_poll script s = Some s'"
  shows "sched_inv s'"
proof -
  from run_poll_Some [OF assms(2)] obtain evs where s': "s' =
     s\<lparr>timer := filter (\<lambda>e. fst e \<notin> set (map fst (filter (\<lambda>w. snd w \<in> set evs) (waiters (ioPoll s))))) (timer s),
       ioPoll := \<lparr>watched = watched (ioPoll s),
                  waiters = filter (\<lambda>w. snd w \<notin> set evs) (waiters (ioPoll s))\<rparr>,
       fibers := (\<lambda>p. if p \<in> set (map fst (filter (\<lambda>w. snd w \<in> set evs) (waiters (ioPoll s))))
                       then map_option (\<lambda>fb. fb\<lparr>f_status := 1, f_fd := - 1\<rparr>) (fibers s p)
                       else fibers s p),
       readyFiberQueue := readyFiberQueue s @ map fst (filter (\<lambda>w. snd w \<in> set evs) (waiters (ioPoll s)))\<rparr>"
    by blast
  let ?q = "map fst (filter (\<lambda>w. snd w \<in> set evs) (waiters (ioPoll s)))"
  have dw: "distinct (map fst (waiters (ioPoll s)))" and dt: "distinct (map fst (timer s))"
    using assms(1) by (simp_all add: sched_inv_def)
  show ?thesis
    unfolding s'
  proof (rule wake_inv [OF assms(1)])
    show "distinct ?q"
      using dw by (rule distinct_map_filter)
    show "set ?q \<subseteq> suspended s"
      by (auto simp add: suspended_def)
    show "set (filter (\<lambda>e. fst e \<notin> set ?q) (timer s)) \<subseteq> set (timer s)"
      by auto
    show "distinct (map fst (filter (\<lambda>e. fst e \<notin> set ?q) (timer s)))"
      using dt by (rule distinct_map_filter)
    show "fst ` set (filter (\<lambda>e. fst e \<notin> set ?q) (timer s)) \<inter> set ?q = {}"
      by auto
    show "set (filter (\<lambda>w. snd w \<notin> set evs) (waiters (ioPoll s))) \<subseteq> set (waiters (ioPoll s))"
      by auto
    show "distinct (map fst (filter (\<lambda>w. snd w \<notin> set evs) (waiters (ioPoll s))))"
      using dw by (rule distinct_map_filter)
    show "fst ` set (filter (\<lambda>w. snd w \<notin> set evs) (waiters (ioPoll s))) \<inter> set ?q = {}"
      using inj_fst_distinct [OF dw] by fastforce
    show "\<And>fb. f_context (fb\<lparr>f_status := 1, f_fd := - 1\<rparr>) = f_context fb"
      by simp
    show "\<And>fb. f_status fb \<noteq> 0 \<Longrightarrow> f_status (fb\<lparr>f_status := 1, f_fd := - 1\<rparr>) \<noteq> 0"
      by simp
  qed
qed

lemma removeDueItems_props:
  assumes "distinct (map fst tq)"
  shows "distinct (fst (removeDueItems now cap tq))"
    and "set (fst (removeDueItems now cap tq)) \<subseteq> fst ` set tq"
    and "set (snd (removeDueItems now cap tq)) \<subseteq> set tq"
    and "distinct (map fst (snd (removeDueItems now cap tq)))"
    and "fst ` set (snd (removeDueItems now cap tq)) \<inter> set (fst (removeDueItems now cap tq)) = {}"
proof -
  let ?due = "take cap (sort_key deadlineKey (filter (isDue now) tq))"
  have due_sub: "set ?due \<subseteq> set tq"
    using set_take_subset [of cap "sort_key deadlineKey (filter (isDue now) tq)"] by auto
  have "distinct (map fst (filter (isDue now) tq))"
    using assms by (rule distinct_map_filter)
  then have "distinct (map fst (sort_key deadlineKey (filter (isDue now) tq)))"
    by (simp add: distinct_map)
  then have "distinct (take cap (map fst (sort_key deadlineKey (filter (isDue now) tq))))"
    by (rule distinct_take)
  then show "distinct (fst (removeDueItems now cap tq))"
    by (simp add: removeDueItems_def Let_def take_map)
  show "set (fst (removeDueItems now cap tq)) \<subseteq> fst ` set tq"
    using due_sub by (auto simp add: removeDueItems_def Let_def)
  show "set (snd (removeDueItems now cap tq)) \<subseteq> set tq"
    by (auto simp add: removeDueItems_def Let_def)
  show "distinct (map fst (snd (removeDueItems now cap tq)))"
    using assms by (simp add: removeDueItems_def Let_def distinct_map_filter)
  show "fst ` set (snd (removeDueItems now cap tq)) \<inter> set (fst (removeDueItems now cap tq)) = {}"
  proof (rule ccontr)
    assume "fst ` set (snd (removeDueItems now cap tq)) \<inter> set (fst (removeDueItems now cap tq)) \<noteq> {}"
    then obtain e d where e: "e \<in> set tq" "e \<notin> set ?due" and d: "d \<in> set ?due" and eq: "fst e = fst d"
      by (auto simp add: removeDueItems_def Let_def)
    from d due_sub have "d \<in> set tq" by auto
    from inj_fst_distinct [OF assms e(1) this eq] e(2) d show False by simp
  qed
qed

lemma run_timer_eq:
  "run_timer now s =
     s\<lparr>timer := snd (removeDueItems now 1024 (timer s)),
       ioPoll := \<lparr>watched = watched (ioPoll s),
                  waiters = filter (\<lambda>w. \<not> (fst w \<in> set (fst (removeDueItems now 1024 (timer s))) \<and>
                       (\<exists>fb. fibers s (fst w) = Some fb \<and> 0 \<le> f_fd fb \<and> fst (snd w) = f_fd fb)))
                     (waiters (ioPoll s))\<rparr>,
       fibers := (\<lambda>p. if p \<in> set (fst (removeDueItems now 1024 (timer s)))
                       then map_option timedOut (fibers s p) else fibers s p),
       readyFiberQueue := readyFiberQueue s @ fst (removeDueItems now 1024 (timer s))\<rparr>"
proof (rule Scheduler.equality)
  show "ioPoll (run_timer now s) = ioPoll (s\<lparr>timer := snd (removeDueItems now 1024 (timer s)),
       ioPoll := \<lparr>watched = watched (ioPoll s),
                  waiters = filter (\<lambda>w. \<not> (fst w \<in> set (fst (removeDueItems now 1024 (timer s))) \<and>
                       (\<exists>fb. fibers s (fst w) = Some fb \<and> 0 \<le> f_fd fb \<and> fst (snd w) = f_fd fb)))
                     (waiters (ioPoll s))\<rparr>,
       fibers := (\<lambda>p. if p \<in> set (fst (removeDueItems now 1024 (timer s)))
                       then map_option timedOut (fibers s p) else fibers s p),
       readyFiberQueue := readyFiberQueue s @ fst (removeDueItems now 1024 (timer s))\<rparr>)"
    by (rule IOPoll.equality) (simp_all add: run_timer_alt foldl_run_timer_each_waiters)
qed (simp_all add: run_timer_alt foldl_run_timer_each_fibers fun_eq_iff)

lemma run_timer_inv:
  assumes "sched_inv s"
  shows "sched_inv (run_timer now s)"
  unfolding run_timer_eq
proof (rule wake_inv [OF assms])
  let ?b = "fst (removeDueItems now 1024 (timer s))"
  have dw: "distinct (map fst (waiters (ioPoll s)))" and dt: "distinct (map fst (timer s))"
    using assms by (simp_all add: sched_inv_def)
  show "distinct ?b" using dt by (rule removeDueItems_props)
  show "set ?b \<subseteq> suspended s"
    using removeDueItems_props(2) [OF dt] by (auto simp add: suspended_def)
  show "set (snd (removeDueItems now 1024 (timer s))) \<subseteq> set (timer s)"
    using dt by (rule removeDueItems_props)
  show "distinct (map fst (snd (removeDueItems now 1024 (timer s))))"
    using dt by (rule removeDueItems_props)
  show "fst ` set (snd (removeDueItems now 1024 (timer s))) \<inter> set ?b = {}"
    using dt by (rule removeDueItems_props)
  show "set (filter (\<lambda>w. \<not> (fst w \<in> set ?b \<and>
          (\<exists>fb. fibers s (fst w) = Some fb \<and> 0 \<le> f_fd fb \<and> fst (snd w) = f_fd fb)))
        (waiters (ioPoll s))) \<subseteq> set (waiters (ioPoll s))"
    by auto
  show "distinct (map fst (filter (\<lambda>w. \<not> (fst w \<in> set ?b \<and>
          (\<exists>fb. fibers s (fst w) = Some fb \<and> 0 \<le> f_fd fb \<and> fst (snd w) = f_fd fb)))
        (waiters (ioPoll s))))"
    using dw by (rule distinct_map_filter)
  have fd: "\<forall>w \<in> set (waiters (ioPoll s)).
        0 \<le> fst (snd w) \<and> (\<exists>fb. fibers s (fst w) = Some fb \<and> f_fd fb = fst (snd w))"
    using assms by (simp add: sched_inv_def)
  show "fst ` set (filter (\<lambda>w. \<not> (fst w \<in> set ?b \<and>
          (\<exists>fb. fibers s (fst w) = Some fb \<and> 0 \<le> f_fd fb \<and> fst (snd w) = f_fd fb)))
        (waiters (ioPoll s))) \<inter> set ?b = {}"
    using fd by fastforce
  show "\<And>fb. f_context (timedOut fb) = f_context fb"
    by simp
  show "\<And>fb. f_status fb \<noteq> 0 \<Longrightarrow> f_status (timedOut fb) \<noteq> 0"
    by (simp add: ETIME_def)
qed


lemma run_reap_each_fields [simp]:
  "fiberCount (run_reap_each s a) = fiberCount s - 1"
  "sched_context (run_reap_each s a) = sched_context s"
  "sched_status (run_reap_each s a) = sched_status s"
  "runningFiber (run_reap_each s a) = runningFiber s"
  "readyFiberQueue (run_reap_each s a) = readyFiberQueue s"
  "deadFiberQueue (run_reap_each s a) = deadFiberQueue s"
  "timer (run_reap_each s a) = timer s"
  "ioPoll (run_reap_each s a) = ioPoll s"
  "fibers (run_reap_each s a) = (fibers s)(a := None)"
  by (simp_all add: run_reap_each_def DestroyFiber_def Let_def)

lemma foldl_run_reap_each_fields [simp]:
  "sched_context (foldl run_reap_each s q) = sched_context s"
  "sched_status (foldl run_reap_each s q) = sched_status s"
  "runningFiber (foldl run_reap_each s q) = runningFiber s"
  "readyFiberQueue (foldl run_reap_each s q) = readyFiberQueue s"
  "deadFiberQueue (foldl run_reap_each s q) = deadFiberQueue s"
  "timer (foldl run_reap_each s q) = timer s"
  "ioPoll (foldl run_reap_each s q) = ioPoll s"
  by (induction q arbitrary: s; simp)+

lemma foldl_run_reap_each_fiberCount:
  "fiberCount (foldl run_reap_each s q) = fiberCount s - int (length q)"
  by (induction q arbitrary: s) simp_all

lemma foldl_run_reap_each_fibers:
  "fibers (foldl run_reap_each s q) p = (if p \<in> set q then None else fibers s p)"
  by (induction q arbitrary: s) auto

lemma run_reap_eq:
  "fst (run_reap s) =
     s\<lparr>fibers := (\<lambda>p. if p \<in> set (deadFiberQueue s) then None else fibers s p),
       fiberCount := fiberCount s - int (length (deadFiberQueue s)),
       deadFiberQueue := []\<rparr>"
  by (rule Scheduler.equality)
     (auto simp add: run_reap_def Let_def foldl_run_reap_each_fiberCount foldl_run_reap_each_fibers
        fun_eq_iff)

lemma run_reap_inv:
  assumes "sched_inv s"
  shows "sched_inv (fst (run_reap s))"
  using assms unfolding run_reap_eq sched_inv_def suspended_def queued_def
  by (simp add: disjoint_iff subset_iff dom_def)

lemma perform_inv:
  assumes "sched_inv s" and "admissible x s"
  shows "sched_inv (fst (perform x s))"
proof (cases x)
  case (Op_callCoroutine sz region c)
  show ?thesis
  proof (cases "callCoroutine sz region c s")
    case (Inl e)
    with Op_callCoroutine assms(1) show ?thesis by simp
  next
    case (Inr s')
    from assms Op_callCoroutine have "sched_inv s'"
      using callCoroutine_inv [OF assms(1) _ Inr] by simp
    with Op_callCoroutine Inr show ?thesis by simp
  qed
next
  case Op_yieldCurrentFiber
  with assms(1) show ?thesis by (simp add: yieldCurrentFiber_inv)
next
  case (Op_sleepCurrentFiber now duration)
  with assms(1) show ?thesis by (simp add: sleepCurrentFiber_inv)
next
  case Op_killCurrentFiber
  with assms(1) show ?thesis by (simp add: killCurrentFiber_inv)
next
  case (Op_awaitIOEvent now fdv ev timeout)
  with assms show ?thesis by (simp add: awaitIOEvent_inv)
next
  case (Op_watchIO fdv)
  with assms(1) show ?thesis by (simp add: watchIO_inv)
next
  case (Op_unwatchIO fdv)
  with assms(1) show ?thesis by (simp add: unwatchIO_inv)
next
  case Op_run_dispatch
  with assms(1) show ?thesis by (simp add: run_dispatch_inv)
next
  case Op_run_reap
  with assms(1) show ?thesis by (simp add: run_reap_inv)
next
  case (Op_run_poll script)
  show ?thesis
  proof (cases "run_poll script s")
    case None
    with Op_run_poll assms(1) show ?thesis by simp
  next
    case (Some s')
    with Op_run_poll run_poll_inv [OF assms(1) Some] show ?thesis by simp
  qed
next
  case (Op_run_timer now)
  with assms(1) show ?thesis by (simp add: run_timer_inv)
qed

lemma Scheduler_new_inv: "sched_inv Scheduler_new"
  by (simp add: sched_inv_def suspended_def queued_def Scheduler_new_def)

subsection \<open>Status 0 and the saved context\<close>

lemma ex_two_inv: "sched_inv ex_two"
  by (simp add: sched_inv_def suspended_def queued_def ex_two_def Scheduler_new_def Fiber_new_def
        nullptr_def)

lemma executeFiber_under_inv:
  assumes "sched_inv s" and "fiber \<in> queued s \<union> suspended s"
  shows "\<exists>fb. fibers s fiber = Some fb \<and>
           (f_context fb = None \<longrightarrow> snd (executeFiber fiber s) = RunFiber fiber (f_stack fb)) \<and>
           (\<forall>c. f_context fb = Some c \<longrightarrow>
                f_status fb \<noteq> 0 \<and> snd (executeFiber fiber s) = LongjmpFiber fiber c (f_status fb))"
proof -
  from assms have nn: "fiber \<noteq> nullptr"
    unfolding sched_inv_def by auto
  from assms have "fiber \<in> dom (fibers s)"
    unfolding sched_inv_def by auto
  then obtain fb where fb: "fibers s fiber = Some fb" by auto
  from assms(1) fb have iff: "f_status fb = 0 \<longleftrightarrow> f_context fb = None"
    unfolding sched_inv_def by blast
  from nn fb iff have
    "fibers s fiber = Some fb \<and>
     (f_context fb = None \<longrightarrow> snd (executeFiber fiber s) = RunFiber fiber (f_stack fb)) \<and>
     (\<forall>c. f_context fb = Some c \<longrightarrow>
          f_status fb \<noteq> 0 \<and> snd (executeFiber fiber s) = LongjmpFiber fiber c (f_status fb))"
    by (auto simp add: executeFiber_def Let_def)
  then show ?thesis by (rule exI)
qed

text \<open>
  Claim C9. The invariant \<open>sched_inv\<close>, whose last part says that a fiber's status is 0
  exactly when its context pointer is null, holds of a new scheduler and is preserved by
  every operation: the scheduler's methods and the phases of \<^verbatim>\<open>run\<close>, under what their
  callers guarantee (\<open>admissible\<close>). \<^verbatim>\<open>killCurrentFiber\<close> sets the context to null and the
  status to 0 together; \<^verbatim>\<open>yieldCurrentFiber\<close> (when it switches), \<^verbatim>\<open>sleepCurrentFiber\<close>
  and \<^verbatim>\<open>awaitIOEvent\<close> save a context and set status 1. For a fiber linked anywhere in
  the scheduler, \<^verbatim>\<open>executeFiber\<close> bootstraps the stack when the context is null, and
  otherwise the status is not 0 and is what \<^verbatim>\<open>longjmp\<close> carries.
\<close>

theorem status_zero_iff_no_context:
  "sched_inv Scheduler_new \<and>
   (sched_inv s \<and> admissible x s \<longrightarrow>
      sched_inv (fst (perform x s)) \<and>
      (\<forall>p fb. fibers (fst (perform x s)) p = Some fb \<longrightarrow> (f_status fb = 0 \<longleftrightarrow> f_context fb = None))) \<and>
   (runningFiber s = Some r \<and> fibers s r = Some fb \<longrightarrow>
      fibers (fst (killCurrentFiber s)) r = Some (fb\<lparr>f_context := None, f_status := 0\<rparr>) \<and>
      (readyFiberQueue s \<noteq> [] \<longrightarrow>
         fibers (fst (yieldCurrentFiber s)) r =
           Some (fb\<lparr>f_context := Some InYieldCurrentFiber, f_status := 1\<rparr>)) \<and>
      fibers (fst (sleepCurrentFiber now duration s)) r =
        Some (fb\<lparr>f_context := Some InSleepCurrentFiber, f_status := 1\<rparr>) \<and>
      fibers (fst (awaitIOEvent now fdv ev timeout s)) r =
        Some (fb\<lparr>f_context := Some InAwaitIOEvent, f_status := 1, f_fd := fdv\<rparr>)) \<and>
   (sched_inv s \<and> fiber \<in> queued s \<union> suspended s \<longrightarrow>
      (\<exists>fb. fibers s fiber = Some fb \<and>
         (f_context fb = None \<longrightarrow> snd (executeFiber fiber s) = RunFiber fiber (f_stack fb)) \<and>
         (\<forall>c. f_context fb = Some c \<longrightarrow>
              f_status fb \<noteq> 0 \<and> snd (executeFiber fiber s) = LongjmpFiber fiber c (f_status fb))))"
proof (intro conjI impI)
  show "sched_inv Scheduler_new" by (rule Scheduler_new_inv)
next
  assume a: "sched_inv s \<and> admissible x s"
  then show inv': "sched_inv (fst (perform x s))" by (simp add: perform_inv)
  then show "\<forall>p fb. fibers (fst (perform x s)) p = Some fb \<longrightarrow> (f_status fb = 0 \<longleftrightarrow> f_context fb = None)"
    unfolding sched_inv_def by blast
next
  assume a: "runningFiber s = Some r \<and> fibers s r = Some fb"
  then have r: "runningFiber s = Some r" and fb: "fibers s r = Some fb" by simp_all
  show "fibers (fst (killCurrentFiber s)) r = Some (fb\<lparr>f_context := None, f_status := 0\<rparr>)"
    using fb by (simp add: killCurrentFiber_eq [OF r])
  show "fibers (fst (sleepCurrentFiber now duration s)) r =
        Some (fb\<lparr>f_context := Some InSleepCurrentFiber, f_status := 1\<rparr>)"
    using fb by (simp add: sleepCurrentFiber_eq [OF r])
  show "fibers (fst (awaitIOEvent now fdv ev timeout s)) r =
        Some (fb\<lparr>f_context := Some InAwaitIOEvent, f_status := 1, f_fd := fdv\<rparr>)"
    using fb by (simp add: awaitIOEvent_eq [OF r])
  show "fibers (fst (yieldCurrentFiber s)) r =
           Some (fb\<lparr>f_context := Some InYieldCurrentFiber, f_status := 1\<rparr>)"
    if "readyFiberQueue s \<noteq> []"
    using fb by (simp add: yieldCurrentFiber_eq [OF r that])
next
  assume "sched_inv s \<and> fiber \<in> queued s \<union> suspended s"
  then show "\<exists>fb. fibers s fiber = Some fb \<and>
         (f_context fb = None \<longrightarrow> snd (executeFiber fiber s) = RunFiber fiber (f_stack fb)) \<and>
         (\<forall>c. f_context fb = Some c \<longrightarrow>
              f_status fb \<noteq> 0 \<and> snd (executeFiber fiber s) = LongjmpFiber fiber c (f_status fb))"
    by (intro executeFiber_under_inv) simp_all
qed

theorem status_zero_iff_no_context_witness:
  "sched_inv ex_two \<and> admissible Op_yieldCurrentFiber ex_two \<and>
   sched_inv (fst (perform Op_yieldCurrentFiber ex_two)) \<and>
   admissible (Op_callCoroutine 64 131072 (Some 3)) ex_two \<and>
   sched_inv (fst (perform (Op_callCoroutine 64 131072 (Some 3)) ex_two)) \<and>
   admissible (Op_awaitIOEvent 0 3 Readability 10) ex_two \<and>
   sched_inv (fst (perform (Op_awaitIOEvent 0 3 Readability 10) ex_two)) \<and>
   fibers (fst (killCurrentFiber ex_two)) 4096 =
     Some ((Fiber_new (Some 1) 4096)\<lparr>f_context := None, f_status := 0\<rparr>) \<and>
   fibers (fst (yieldCurrentFiber ex_two)) 4096 =
     Some ((Fiber_new (Some 1) 4096)\<lparr>f_context := Some InYieldCurrentFiber, f_status := 1\<rparr>) \<and>
   fibers (fst (sleepCurrentFiber 0 10 ex_two)) 4096 =
     Some ((Fiber_new (Some 1) 4096)\<lparr>f_context := Some InSleepCurrentFiber, f_status := 1\<rparr>) \<and>
   fibers (fst (awaitIOEvent 0 3 Readability 10 ex_two)) 4096 =
     Some ((Fiber_new (Some 1) 4096)\<lparr>f_context := Some InAwaitIOEvent, f_status := 1, f_fd := 3\<rparr>) \<and>
   8192 \<in> queued ex_two \<union> suspended ex_two \<and>
   snd (executeFiber 8192 ex_two) = RunFiber 8192 8192"
  using status_zero_iff_no_context [where s = ex_two and x = Op_yieldCurrentFiber and r = 4096
          and fb = "Fiber_new (Some 1) 4096" and now = 0 and duration = 10 and fdv = 3
          and ev = Readability and timeout = 10 and fiber = 8192]
        status_zero_iff_no_context [where s = ex_two and x = "Op_callCoroutine 64 131072 (Some 3)"
          and r = 0 and fiber = 0]
        status_zero_iff_no_context [where s = ex_two and x = "Op_awaitIOEvent 0 3 Readability 10"
          and r = 0 and fiber = 0]
        ex_two_inv
  by (simp add: queued_def del: perform.simps)
     (simp add: ex_two_def Scheduler_new_def Fiber_new_def nullptr_def MAP_FAILED_def
        TARA_FIBER_SIZE_def del: perform.simps)

subsection \<open>The ready queue is first in, first out\<close>

lemma executeFiber_dispatched:
  "\<not> aborted (snd (executeFiber f s)) \<Longrightarrow> dispatched (snd (executeFiber f s)) = [f]"
  by (auto simp add: executeFiber_def Let_def split: option.splits if_splits)

lemma execute_dispatched: "dispatched (snd (execute s)) = []"
  by (simp add: execute_def Let_def split: option.splits)

lemma executeNext_fifo:
  assumes "\<not> aborted (snd (executeNext t))"
  shows "(readyFiberQueue t = [] \<and> readyFiberQueue (fst (executeNext t)) = [] \<and>
          dispatched (snd (executeNext t)) = []) \<or>
         (\<exists>h rest. readyFiberQueue t = h # rest \<and> readyFiberQueue (fst (executeNext t)) = rest \<and>
          dispatched (snd (executeNext t)) = [h])"
proof (cases "readyFiberQueue t")
  case Nil
  then show ?thesis by (simp add: executeNext_def execute_dispatched)
next
  case (Cons h rest)
  with assms have "dispatched (snd (executeNext t)) = [h]"
    by (simp add: executeNext_def executeFiber_dispatched)
  with Cons show ?thesis by simp
qed

lemma perform_fifo:
  assumes "\<not> aborted (snd (perform x s))"
  shows "fifo_step (readyFiberQueue s) (readyFiberQueue (fst (perform x s)))
           (dispatched (snd (perform x s)))"
proof (cases x)
  case (Op_callCoroutine sz region c)
  with assms obtain s' where s': "callCoroutine sz region c s = Inr s'"
    by (cases "callCoroutine sz region c s") auto
  then have "\<exists>added. readyFiberQueue s' = readyFiberQueue s @ added"
    by (auto simp add: callCoroutine_def Let_def split: list.splits sum.splits)
  with Op_callCoroutine s' show ?thesis by (simp add: fifo_step_def)
next
  case Op_yieldCurrentFiber
  with assms obtain r where r: "runningFiber s = Some r"
    by (cases "runningFiber s") (auto simp add: yieldCurrentFiber_def)
  show ?thesis
  proof (cases "readyFiberQueue s = []")
    case True
    with r Op_yieldCurrentFiber show ?thesis
      by (simp add: yieldCurrentFiber_def fifo_step_def)
  next
    case False
    from assms Op_yieldCurrentFiber executeNext_fifo
      [of "s\<lparr>fibers := (fibers s)(r := map_option (\<lambda>fb. fb\<lparr>f_context := Some InYieldCurrentFiber, f_status := 1\<rparr>) (fibers s r)),
             readyFiberQueue := readyFiberQueue s @ [r]\<rparr>"]
    show ?thesis
      unfolding Op_yieldCurrentFiber perform.simps yieldCurrentFiber_eq [OF r False] fifo_step_def
      using False by (cases "readyFiberQueue s") auto
  qed
next
  case (Op_sleepCurrentFiber now duration)
  with assms obtain r where r: "runningFiber s = Some r"
    by (cases "runningFiber s") (auto simp add: sleepCurrentFiber_def)
  from assms Op_sleepCurrentFiber executeNext_fifo
    [of "s\<lparr>fibers := (fibers s)(r := map_option (\<lambda>fb. fb\<lparr>f_context := Some InSleepCurrentFiber, f_status := 1\<rparr>) (fibers s r)),
           timer := addItem now r duration (timer s)\<rparr>"]
  show ?thesis
    unfolding Op_sleepCurrentFiber perform.simps sleepCurrentFiber_eq [OF r] fifo_step_def
    by auto
next
  case Op_killCurrentFiber
  with assms obtain r where r: "runningFiber s = Some r"
    by (cases "runningFiber s") (auto simp add: killCurrentFiber_def)
  from assms Op_killCurrentFiber executeNext_fifo
    [of "s\<lparr>fibers := (fibers s)(r := map_option (\<lambda>fb. fb\<lparr>f_context := None, f_status := 0\<rparr>) (fibers s r)),
           deadFiberQueue := deadFiberQueue s @ [r]\<rparr>"]
  show ?thesis
    unfolding Op_killCurrentFiber perform.simps killCurrentFiber_eq [OF r] fifo_step_def
    by auto
next
  case (Op_awaitIOEvent now fdv ev timeout)
  with assms obtain r where r: "runningFiber s = Some r"
    by (cases "runningFiber s") (auto simp add: awaitIOEvent_def)
  from assms Op_awaitIOEvent executeNext_fifo
    [of "s\<lparr>fibers := (fibers s)(r := map_option (\<lambda>fb. fb\<lparr>f_context := Some InAwaitIOEvent, f_status := 1, f_fd := fdv\<rparr>) (fibers s r)),
           ioPoll := addEventAwaiter r fdv ev (ioPoll s),
           timer := addItem now r timeout (timer s)\<rparr>"]
  show ?thesis
    unfolding Op_awaitIOEvent perform.simps awaitIOEvent_eq [OF r] fifo_step_def
    by auto
next
  case (Op_watchIO fdv)
  then show ?thesis by (simp add: fifo_step_def watchIO_def)
next
  case (Op_unwatchIO fdv)
  then show ?thesis by (simp add: fifo_step_def unwatchIO_fields)
next
  case Op_run_dispatch
  show ?thesis
  proof (cases "readyFiberQueue s = []")
    case True
    with Op_run_dispatch show ?thesis by (simp add: run_dispatch_def fifo_step_def)
  next
    case False
    from assms Op_run_dispatch executeNext_fifo
      [of "s\<lparr>sched_context := Some InRun, sched_status := 1\<rparr>"]
    show ?thesis
      unfolding Op_run_dispatch perform.simps run_dispatch_eq [OF False] fifo_step_def
      by auto
  qed
next
  case Op_run_reap
  then show ?thesis by (simp add: fifo_step_def run_reap_eq)
next
  case (Op_run_poll script)
  with assms obtain s' where s': "run_poll script s = Some s'"
    by (cases "run_poll script s") auto
  from run_poll_Some [OF s'] have "\<exists>added. readyFiberQueue s' = readyFiberQueue s @ added"
    by auto
  with Op_run_poll s' show ?thesis by (simp add: fifo_step_def)
next
  case (Op_run_timer now)
  then show ?thesis by (simp add: fifo_step_def run_timer_alt)
qed

text \<open>
  A fiber in the ready queue is dispatched only after every fiber in front of it.
\<close>

lemma dispatches_fifo:
  "readyFiberQueue s = pre @ r # post \<Longrightarrow> r \<notin> set pre \<Longrightarrow> r \<in> set (dispatches xs s) \<Longrightarrow>
   set pre \<subseteq> set (takeWhile (\<lambda>p. p \<noteq> r) (dispatches xs s))"
proof (induction xs arbitrary: s pre post)
  case Nil
  then show ?case by simp
next
  case (Cons x xs)
  obtain s' t where step: "perform x s = (s', t)" by (cases "perform x s")
  with Cons.prems(3) have ok: "\<not> aborted t"
    by (auto split: if_splits)
  with step have trace: "dispatches (x # xs) s = dispatched t @ dispatches xs s'"
    by simp
  from perform_fifo [of x s] step ok
  have "fifo_step (readyFiberQueue s) (readyFiberQueue s') (dispatched t)" by simp
  then consider
    (append) added where "dispatched t = []" "readyFiberQueue s' = readyFiberQueue s @ added"
  | (pop) h rest added where "readyFiberQueue s = h # rest" "readyFiberQueue s' = rest @ added"
      "dispatched t = [h]"
    unfolding fifo_step_def by blast
  then show ?case
  proof cases
    case append
    from append(2) Cons.prems(1) have q': "readyFiberQueue s' = pre @ r # (post @ added)" by simp
    from Cons.prems(3) have "r \<in> set (dispatched t @ dispatches xs s')"
      unfolding trace .
    with append(1) have "r \<in> set (dispatches xs s')" by simp
    from Cons.IH [OF q' Cons.prems(2) this] append(1) show ?thesis
      unfolding trace by simp
  next
    case pop
    show ?thesis
    proof (cases pre)
      case Nil
      then show ?thesis by simp
    next
      case (Cons h' pre')
      with pop(1) \<open>readyFiberQueue s = pre @ r # post\<close> have h: "h' = h" and rest: "rest = pre' @ r # post" by simp_all
      from Cons \<open>r \<notin> set pre\<close> h have hr: "h \<noteq> r" and r': "r \<notin> set pre'" by auto
      from pop(2) rest have q': "readyFiberQueue s' = pre' @ r # (post @ added)" by simp
      from Cons.prems(3) have "r \<in> set (dispatched t @ dispatches xs s')"
        unfolding trace .
      with pop(3) hr have "r \<in> set (dispatches xs s')" by simp
      from Cons.IH [OF q' r' this]
      have "set pre' \<subseteq> set (takeWhile (\<lambda>p. p \<noteq> r) (dispatches xs s'))" .
      with pop(3) hr Cons h show ?thesis
        unfolding trace by auto
    qed
  qed
qed

text \<open>
  Claim C3. With an empty ready queue \<^verbatim>\<open>yieldCurrentFiber\<close> returns at once and changes
  nothing. Otherwise it saves the running fiber's context with status 1, appends that
  fiber to the tail of the ready queue, and dispatches the fiber that was at the head.
  Then, whatever operations follow, if the yielder is dispatched again, every fiber that
  was in the ready queue at the yield has been dispatched before it.
\<close>

theorem yieldCurrentFiber_fifo:
  "(runningFiber s = Some r \<and> readyFiberQueue s = [] \<longrightarrow> yieldCurrentFiber s = (s, Returned)) \<and>
   (sched_inv s \<and> runningFiber s = Some r \<and> readyFiberQueue s = g # rest \<and> fibers s r = Some fb \<longrightarrow>
      fibers (fst (yieldCurrentFiber s)) r =
        Some (fb\<lparr>f_context := Some InYieldCurrentFiber, f_status := 1\<rparr>) \<and>
      readyFiberQueue (fst (yieldCurrentFiber s)) = rest @ [r] \<and>
      runningFiber (fst (yieldCurrentFiber s)) = Some g \<and>
      dispatched (snd (yieldCurrentFiber s)) = [g]) \<and>
   (sched_inv s \<and> runningFiber s = Some r \<and> r \<in> set (dispatches (Op_yieldCurrentFiber # xs) s) \<longrightarrow>
      set (readyFiberQueue s) \<subseteq>
        set (takeWhile (\<lambda>p. p \<noteq> r) (dispatches (Op_yieldCurrentFiber # xs) s)))"
proof (intro conjI impI)
  assume "runningFiber s = Some r \<and> readyFiberQueue s = []"
  then show "yieldCurrentFiber s = (s, Returned)"
    by (simp add: yieldCurrentFiber_def)
next
  assume a: "sched_inv s \<and> runningFiber s = Some r \<and> readyFiberQueue s = g # rest \<and> fibers s r = Some fb"
  then have inv: "sched_inv s" and r: "runningFiber s = Some r" and q: "readyFiberQueue s = g # rest"
    and fb: "fibers s r = Some fb" by simp_all
  from q have ne: "readyFiberQueue s \<noteq> []" by simp
  from inv q have g: "g \<noteq> nullptr" "g \<in> queued s \<union> suspended s"
    unfolding sched_inv_def queued_def by auto
  from inv r q have gr: "g \<noteq> r"
    unfolding sched_inv_def by auto
  show "fibers (fst (yieldCurrentFiber s)) r =
        Some (fb\<lparr>f_context := Some InYieldCurrentFiber, f_status := 1\<rparr>)"
    using fb by (simp add: yieldCurrentFiber_eq [OF r ne])
  show "readyFiberQueue (fst (yieldCurrentFiber s)) = rest @ [r]"
    using q by (simp add: yieldCurrentFiber_eq [OF r ne])
  show "runningFiber (fst (yieldCurrentFiber s)) = Some g"
    using q g by (simp add: yieldCurrentFiber_eq [OF r ne])
  from inv g(2) have "g \<in> dom (fibers s)"
    unfolding sched_inv_def by auto
  then obtain gb where gb: "fibers s g = Some gb" by auto
  from inv gb have iff: "f_status gb = 0 \<longleftrightarrow> f_context gb = None"
    unfolding sched_inv_def by blast
  show "dispatched (snd (yieldCurrentFiber s)) = [g]"
    using q g(1) gr gb iff
    by (cases "f_context gb")
       (simp_all add: yieldCurrentFiber_eq [OF r ne] executeNext_def executeFiber_def Let_def)
next
  assume a: "sched_inv s \<and> runningFiber s = Some r \<and> r \<in> set (dispatches (Op_yieldCurrentFiber # xs) s)"
  then have inv: "sched_inv s" and r: "runningFiber s = Some r"
    and rin: "r \<in> set (dispatches (Op_yieldCurrentFiber # xs) s)" by simp_all
  show "set (readyFiberQueue s) \<subseteq>
        set (takeWhile (\<lambda>p. p \<noteq> r) (dispatches (Op_yieldCurrentFiber # xs) s))"
  proof (cases "readyFiberQueue s")
    case Nil
    then show ?thesis by simp
  next
    case (Cons g rest)
    obtain s' t where step: "yieldCurrentFiber s = (s', t)" by (cases "yieldCurrentFiber s")
    with rin have ok: "\<not> aborted t" by (auto split: if_splits)
    with step have trace: "dispatches (Op_yieldCurrentFiber # xs) s = dispatched t @ dispatches xs s'"
      by simp
    from inv r Cons have gr: "g \<noteq> r" and rr: "r \<notin> set rest"
      unfolding sched_inv_def by auto
    from Cons have ne: "readyFiberQueue s \<noteq> []" by simp
    from step have s': "s' = fst (yieldCurrentFiber s)" and t: "t = snd (yieldCurrentFiber s)"
      by simp_all
    have q': "readyFiberQueue s' = rest @ r # []"
      unfolding s' using Cons by (simp add: yieldCurrentFiber_eq [OF r ne])
    from ok have "\<not> aborted (snd (executeNext
        (s\<lparr>fibers := (fibers s)(r := map_option (\<lambda>fb. fb\<lparr>f_context := Some InYieldCurrentFiber, f_status := 1\<rparr>) (fibers s r)),
           readyFiberQueue := readyFiberQueue s @ [r]\<rparr>)))"
      unfolding t yieldCurrentFiber_eq [OF r ne] .
    from executeNext_fifo [OF this] Cons
    have "dispatched (snd (executeNext
        (s\<lparr>fibers := (fibers s)(r := map_option (\<lambda>fb. fb\<lparr>f_context := Some InYieldCurrentFiber, f_status := 1\<rparr>) (fibers s r)),
           readyFiberQueue := readyFiberQueue s @ [r]\<rparr>))) = [g]"
      by simp
    then have d: "dispatched t = [g]"
      unfolding t yieldCurrentFiber_eq [OF r ne] .
    from rin have "r \<in> set (dispatched t @ dispatches xs s')"
      unfolding trace .
    with d gr have "r \<in> set (dispatches xs s')" by simp
    from dispatches_fifo [OF q' rr this]
    have "set rest \<subseteq> set (takeWhile (\<lambda>p. p \<noteq> r) (dispatches xs s'))" .
    with Cons d gr show ?thesis
      unfolding trace by auto
  qed
qed

lemma dispatches_ex_two:
  "dispatches [Op_yieldCurrentFiber, Op_yieldCurrentFiber] ex_two = [8192, 4096]"
  by (simp add: ex_two_def Scheduler_new_def Fiber_new_def yieldCurrentFiber_def executeFiber_def
        upd_def Let_def nullptr_def)

theorem yieldCurrentFiber_fifo_witness:
  "yieldCurrentFiber ex_running = (ex_running, Returned) \<and>
   fibers (fst (yieldCurrentFiber ex_two)) 4096 =
     Some ((Fiber_new (Some 1) 4096)\<lparr>f_context := Some InYieldCurrentFiber, f_status := 1\<rparr>) \<and>
   readyFiberQueue (fst (yieldCurrentFiber ex_two)) = [4096] \<and>
   runningFiber (fst (yieldCurrentFiber ex_two)) = Some 8192 \<and>
   dispatched (snd (yieldCurrentFiber ex_two)) = [8192] \<and>
   dispatches [Op_yieldCurrentFiber, Op_yieldCurrentFiber] ex_two = [8192, 4096] \<and>
   set (readyFiberQueue ex_two) \<subseteq>
     set (takeWhile (\<lambda>p. p \<noteq> 4096) (dispatches [Op_yieldCurrentFiber, Op_yieldCurrentFiber] ex_two))"
  using yieldCurrentFiber_fifo [where s = ex_running and r = 4096 and g = 0 and rest = "[]"
          and fb = "Fiber_new (Some 1) 4096" and xs = "[]"]
        yieldCurrentFiber_fifo [where s = ex_two and r = 4096 and g = 8192 and rest = "[]"
          and fb = "Fiber_new (Some 1) 4096" and xs = "[Op_yieldCurrentFiber]"]
        ex_two_inv
  by (simp del: dispatches.simps add: dispatches_ex_two)
     (simp add: ex_two_def ex_running_def Scheduler_new_def)

subsection \<open>A ready fiber keeps its record\<close>

text \<open>
  No operation changes the record of a fiber that is in the ready queue. So the status a
  fiber is given when it is made ready (1 by the poll phase, \<^verbatim>\<open>-ETIME\<close> by the timer
  phase, \<^verbatim>\<open>-EBADF\<close> by \<^verbatim>\<open>unwatchIO\<close>) is the status \<^verbatim>\<open>executeFiber\<close> resumes it with.
\<close>

lemma ready_record_stable:
  assumes inv: "sched_inv s" and adm: "admissible x s" and p: "p \<in> set (readyFiberQueue s)"
  shows "fibers (fst (perform x s)) p = fibers s p"
proof -
  from inv p have not_susp: "p \<notin> suspended s"
    unfolding sched_inv_def queued_def by auto
  from inv p have not_dead: "p \<notin> set (deadFiberQueue s)"
    unfolding sched_inv_def by auto
  from inv p have not_running: "runningFiber s \<noteq> Some p"
    unfolding sched_inv_def by auto
  from inv p have alloc: "fibers s p \<noteq> None"
    unfolding sched_inv_def queued_def by auto
  show ?thesis
  proof (cases x)
    case (Op_callCoroutine sz region c)
    show ?thesis
    proof (cases "callCoroutine sz region c s")
      case (Inl e)
      with Op_callCoroutine show ?thesis by simp
    next
      case (Inr s')
      with not_dead alloc adm Op_callCoroutine have "fibers s' p = fibers s p"
        by (auto simp add: callCoroutine_def CreateFiber_def Let_def split: list.splits if_splits)
      with Op_callCoroutine Inr show ?thesis by simp
    qed
  next
    case Op_yieldCurrentFiber
    show ?thesis
    proof (cases "runningFiber s")
      case None
      with Op_yieldCurrentFiber show ?thesis by (simp add: yieldCurrentFiber_def)
    next
      case (Some r)
      from p have ne: "readyFiberQueue s \<noteq> []" by auto
      from Some not_running have "r \<noteq> p" by simp
      with Op_yieldCurrentFiber show ?thesis
        by (simp add: yieldCurrentFiber_eq [OF Some ne])
    qed
  next
    case (Op_sleepCurrentFiber now duration)
    show ?thesis
    proof (cases "runningFiber s")
      case None
      with Op_sleepCurrentFiber show ?thesis by (simp add: sleepCurrentFiber_def)
    next
      case (Some r)
      from Some not_running have "r \<noteq> p" by simp
      with Op_sleepCurrentFiber show ?thesis
        by (simp add: sleepCurrentFiber_eq [OF Some])
    qed
  next
    case Op_killCurrentFiber
    show ?thesis
    proof (cases "runningFiber s")
      case None
      with Op_killCurrentFiber show ?thesis by (simp add: killCurrentFiber_def)
    next
      case (Some r)
      from Some not_running have "r \<noteq> p" by simp
      with Op_killCurrentFiber show ?thesis
        by (simp add: killCurrentFiber_eq [OF Some])
    qed
  next
    case (Op_awaitIOEvent now fdv ev timeout)
    show ?thesis
    proof (cases "runningFiber s")
      case None
      with Op_awaitIOEvent show ?thesis by (simp add: awaitIOEvent_def)
    next
      case (Some r)
      from Some not_running have "r \<noteq> p" by simp
      with Op_awaitIOEvent show ?thesis
        by (simp add: awaitIOEvent_eq [OF Some])
    qed
  next
    case (Op_watchIO fdv)
    then show ?thesis by (simp add: watchIO_def)
  next
    case (Op_unwatchIO fdv)
    from not_susp have "p \<notin> set (awaiters_of fdv s)"
      by (auto simp add: awaiters_of_def suspended_def)
    with Op_unwatchIO show ?thesis by (simp add: unwatchIO_fields)
  next
    case Op_run_dispatch
    show ?thesis
    proof (cases "readyFiberQueue s = []")
      case True
      with Op_run_dispatch show ?thesis by (simp add: run_dispatch_def)
    next
      case False
      with Op_run_dispatch show ?thesis by (simp add: run_dispatch_eq [OF False])
    qed
  next
    case Op_run_reap
    with not_dead show ?thesis by (simp add: run_reap_eq)
  next
    case (Op_run_poll script)
    show ?thesis
    proof (cases "run_poll script s")
      case None
      with Op_run_poll show ?thesis by simp
    next
      case (Some s')
      from run_poll_Some [OF Some] not_susp have "fibers s' p = fibers s p"
        by (auto simp add: suspended_def)
      with Op_run_poll Some show ?thesis by simp
    qed
  next
    case (Op_run_timer now)
    from inv have "distinct (map fst (timer s))" by (simp add: sched_inv_def)
    from removeDueItems_props(2) [OF this] not_susp
    have "p \<notin> set (fst (removeDueItems now 1024 (timer s)))"
      by (auto simp add: suspended_def)
    with Op_run_timer show ?thesis by (simp add: run_timer_eq)
  qed
qed

end
